theory Spec2Isabelle
  imports Main "HOL-Library.Word" "HOL-Library.Signed_Division" "HOL-Library.Monad_Syntax"
begin

unbundle bit_operations_syntax

section \<open>Version-1 UUID generation (uuid.go)\<close>

text \<open>
  A shallow embedding of \<^verbatim>\<open>uuid.go\<close>: the byte encoding of a version-1 UUID, the
  storage step that maintains the clock sequence, the initialisation of the storage from
  the random source, the string rendering, and the four generators (package-level with a
  mutex, \<^verbatim>\<open>SatoriGenerator\<close>, \<^verbatim>\<open>ChanneledGenerator\<close>, and the lock-free one
  fed by a goroutine).
\<close>

subsection \<open>Machine types\<close>

type_synonym byte = "8 word"
type_synonym uint16 = "16 word"
type_synonym uint32 = "32 word"
type_synonym uint64 = "64 word"

text \<open>Go's \<^verbatim>\<open>int64\<close>: the same 64 bits, read as two's complement by \<^const>\<open>sint\<close>.\<close>

type_synonym int64 = "64 word"

text \<open>\<^verbatim>\<open>type UUID [16]byte\<close>. Every value built below has length 16.\<close>

type_synonym UUID = "byte list"

subsection \<open>Constants and the timestamp source\<close>

definition epochStart :: uint64 where
  "epochStart = 122192928000000000"

definition dash :: char where
  "dash = CHR ''-''"

text \<open>
  \<^verbatim>\<open>return epochStart + uint64(time.Now().UnixNano()/100)\<close>.
  The argument is the reading \<^verbatim>\<open>time.Now().UnixNano()\<close>, an \<^verbatim>\<open>int64\<close>. Go's \<^verbatim>\<open>/\<close> on
  signed integers truncates towards zero (\<open>sdiv\<close>); the conversion to \<^verbatim>\<open>uint64\<close> keeps the
  bits, and the addition wraps at \<open>2 ^ 64\<close>.
\<close>

definition unixTimeFunc :: "int64 \<Rightarrow> uint64" where
  "unixTimeFunc nano = epochStart + word_of_int (sint nano sdiv 100)"

subsection \<open>Library functions used by the encoder\<close>

text \<open>
  \<^verbatim>\<open>binary.BigEndian.PutUint16(b[off:], v)\<close> and \<^verbatim>\<open>PutUint32\<close>: the slice \<^verbatim>\<open>b[off:]\<close>
  is the array with an offset. Both check the last index they write first and panic
  (\<open>None\<close>) when the slice is too short.
\<close>

definition PutUint16 :: "byte list \<Rightarrow> nat \<Rightarrow> uint16 \<Rightarrow> byte list option" where
  "PutUint16 b off v =
     (if off + 1 < length b
      then Some (b[off := ucast (drop_bit 8 v), off + 1 := ucast v])
      else None)"

definition PutUint32 :: "byte list \<Rightarrow> nat \<Rightarrow> uint32 \<Rightarrow> byte list option" where
  "PutUint32 b off v =
     (if off + 3 < length b
      then Some (b[off := ucast (drop_bit 24 v), off + 1 := ucast (drop_bit 16 v),
                   off + 2 := ucast (drop_bit 8 v), off + 3 := ucast v])
      else None)"

text \<open>
  The builtin \<^verbatim>\<open>copy(dst[off:], src)\<close>: it copies \<open>min (len dst[off:]) (len src)\<close>
  elements and never panics.
\<close>

definition copy :: "'a list \<Rightarrow> nat \<Rightarrow> 'a list \<Rightarrow> 'a list" where
  "copy dst off src =
     (let n = min (length dst - off) (length src)
      in take off dst @ take n src @ drop (off + n) dst)"

subsection \<open>Version and variant bits\<close>

text \<open>\<^verbatim>\<open>u[6] = (u[6] & 0x0f) | (v << 4)\<close>; the shift is on a byte and drops what leaves it.\<close>

definition SetVersion :: "UUID \<Rightarrow> byte \<Rightarrow> UUID" where
  "SetVersion u v = u[6 := (u ! 6 AND 0x0f) OR push_bit 4 v]"

text \<open>\<^verbatim>\<open>u[8] = (u[8] & 0xbf) | 0x80\<close>.\<close>

definition SetVariant :: "UUID \<Rightarrow> UUID" where
  "SetVariant u = u[8 := (u ! 8 AND 0xbf) OR 0x80]"

subsection \<open>The encoder\<close>

text \<open>
  The body shared, line for line, by \<^verbatim>\<open>NewV1\<close>, \<^verbatim>\<open>SatoriGenerator.NewV1\<close>,
  \<^verbatim>\<open>ChanneledGenerator.produceUUIDs\<close> and \<^verbatim>\<open>produceLockFreeUUIDs\<close>, after their call
  to \<^verbatim>\<open>getStorage\<close>:
  \<^verbatim>\<open>
    u := UUID{}
    binary.BigEndian.PutUint32(u[0:], uint32(timeNow))
    binary.BigEndian.PutUint16(u[4:], uint16(timeNow>>32))
    binary.BigEndian.PutUint16(u[6:], uint16(timeNow>>48))
    binary.BigEndian.PutUint16(u[8:], clockSeq)
    copy(u[10:], hardwareAddr)
    u.SetVersion(1)
    u.SetVariant()
  \<close>
\<close>

definition encodeV1 :: "uint64 \<Rightarrow> uint16 \<Rightarrow> byte list \<Rightarrow> UUID option" where
  "encodeV1 timeNow clockSeq hwAddr = do {
     u0 \<leftarrow> Some (replicate 16 0);
     u1 \<leftarrow> PutUint32 u0 0 (ucast timeNow);
     u2 \<leftarrow> PutUint16 u1 4 (ucast (drop_bit 32 timeNow));
     u3 \<leftarrow> PutUint16 u2 6 (ucast (drop_bit 48 timeNow));
     u4 \<leftarrow> PutUint16 u3 8 clockSeq;
     Some (SetVariant (SetVersion (copy u4 10 hwAddr) 1))
   }"

subsection \<open>Reading a UUID back\<close>

text \<open>
  What the claims call the fields of a UUID, as the layout of \<^const>\<open>encodeV1\<close> and
  RFC 4122 have them: the 60 bits of the timestamp (bytes 0 to 7 without the version
  nibble), the 14 bits of the clock sequence (bytes 8 and 9 without the variant bits),
  the version nibble and the variant bits. None of them is in \<^verbatim>\<open>uuid.go\<close>.
\<close>

definition timestampField :: "UUID \<Rightarrow> uint64" where
  "timestampField u =
     push_bit 56 (ucast (u ! 6 AND 0x0f)) OR push_bit 48 (ucast (u ! 7)) OR
     push_bit 40 (ucast (u ! 4)) OR push_bit 32 (ucast (u ! 5)) OR
     push_bit 24 (ucast (u ! 0)) OR push_bit 16 (ucast (u ! 1)) OR
     push_bit 8 (ucast (u ! 2)) OR ucast (u ! 3)"

definition clockSeqField :: "UUID \<Rightarrow> uint16" where
  "clockSeqField u = push_bit 8 (ucast (u ! 8 AND 0x3f)) OR ucast (u ! 9)"

definition versionNibble :: "UUID \<Rightarrow> byte" where
  "versionNibble u = drop_bit 4 (u ! 6)"

definition variantBits :: "UUID \<Rightarrow> byte" where
  "variantBits u = drop_bit 6 (u ! 8)"

subsection \<open>Package-level storage and the mutex-guarded generator\<close>

text \<open>
  The package-level variables \<^verbatim>\<open>clockSequence\<close>, \<^verbatim>\<open>lastTime\<close>, \<^verbatim>\<open>hardwareAddr\<close>.
  \<^verbatim>\<open>storageMutex\<close> makes the body of \<^verbatim>\<open>getStorage\<close> one indivisible step, which is
  how it is modelled: a function from the storage to the storage.
\<close>

record storage =
  clockSequence :: uint16
  lastTime :: uint64
  hardwareAddr :: "byte list"

text \<open>
  \<^verbatim>\<open>getStorage\<close> (and \<^verbatim>\<open>getStorageLockFree\<close>, the same body without the mutex).
  \<open>timeNow\<close> is what the call \<^verbatim>\<open>unixTimeFunc()\<close> returned.
\<close>

definition getStorage :: "uint64 \<Rightarrow> storage \<Rightarrow> (uint64 \<times> uint16 \<times> byte list) \<times> storage" where
  "getStorage timeNow st =
     (let st1 = (if timeNow \<le> lastTime st
                 then st\<lparr>clockSequence := clockSequence st + 1\<rparr> else st);
          st2 = st1\<lparr>lastTime := timeNow\<rparr>
      in ((timeNow, clockSequence st2, hardwareAddr st2), st2))"

definition getStorageLockFree :: "uint64 \<Rightarrow> storage \<Rightarrow> (uint64 \<times> uint16 \<times> byte list) \<times> storage" where
  "getStorageLockFree timeNow st =
     (let st1 = (if timeNow \<le> lastTime st
                 then st\<lparr>clockSequence := clockSequence st + 1\<rparr> else st);
          st2 = st1\<lparr>lastTime := timeNow\<rparr>
      in ((timeNow, clockSequence st2, hardwareAddr st2), st2))"

text \<open>\<^verbatim>\<open>func NewV1() UUID\<close>: the UUID and the storage it leaves; \<open>None\<close> is a panic.\<close>

definition NewV1 :: "uint64 \<Rightarrow> storage \<Rightarrow> (UUID \<times> storage) option" where
  "NewV1 timeNow st =
     (case getStorage timeNow st of
        ((t, clockSeq, hwAddr), st') \<Rightarrow>
          map_option (\<lambda>u. (u, st')) (encodeV1 t clockSeq hwAddr))"

subsection \<open>Initialisation of the storage\<close>

text \<open>A Go \<^verbatim>\<open>error\<close> value, by its message.\<close>

type_synonym error = string

text \<open>
  What one call \<^verbatim>\<open>rand.Read(dest)\<close> does: it returns an error (\<open>Inl\<close>), or it fills
  \<^verbatim>\<open>dest\<close> with the bytes given (\<open>Inr\<close>). What \<^verbatim>\<open>net.Interfaces()\<close> returns: an error, or
  the interfaces, each by its \<^verbatim>\<open>HardwareAddr\<close>.
\<close>

type_synonym rand_result = "error + byte list"
type_synonym interfaces_result = "error + byte list list"

text \<open>
  \<^verbatim>\<open>if _, err := rand.Read(dest); err != nil { panic(err) }\<close>.
  In the functions of this subsection \<open>None\<close> is the panic.
\<close>

definition safeRandom :: "byte list \<Rightarrow> rand_result \<Rightarrow> byte list option" where
  "safeRandom dest r = (case r of Inl err \<Rightarrow> None | Inr bs \<Rightarrow> Some (copy dest 0 bs))"

text \<open>\<^verbatim>\<open>binary.BigEndian.Uint16(b)\<close>, which panics on a slice shorter than two bytes.\<close>

definition Uint16 :: "byte list \<Rightarrow> uint16 option" where
  "Uint16 b = (if 1 < length b then Some (ucast (b ! 1) OR push_bit 8 (ucast (b ! 0))) else None)"

definition initClockSequence :: "rand_result \<Rightarrow> uint16 option" where
  "initClockSequence r = do {
     buf \<leftarrow> safeRandom (replicate 2 0) r;
     Uint16 buf
   }"

text \<open>
  \<^verbatim>\<open>initHardwareAddr(addr [6]byte)\<close> does not use its parameter: it writes the
  package-level \<^verbatim>\<open>hardwareAddr\<close>. \<^verbatim>\<open>first_hardware_addr\<close> is its loop over the
  interfaces, which is skipped when \<^verbatim>\<open>net.Interfaces\<close> returns an error: the first
  hardware address of six bytes or more. \<open>r\<close> is the outcome of the call to
  \<^verbatim>\<open>rand.Read\<close>, which is made only when there is none.
\<close>

definition first_hardware_addr :: "interfaces_result \<Rightarrow> byte list option" where
  "first_hardware_addr ifs =
     (case ifs of
        Inl err \<Rightarrow> None
      | Inr interfaces \<Rightarrow> find (\<lambda>hw. 6 \<le> length hw) interfaces)"

definition initHardwareAddr ::
  "byte list \<Rightarrow> interfaces_result \<Rightarrow> rand_result \<Rightarrow> storage \<Rightarrow> storage option" where
  "initHardwareAddr addr ifs r st =
     (case first_hardware_addr ifs of
        Some hw \<Rightarrow> Some (st\<lparr>hardwareAddr := copy (hardwareAddr st) 0 hw\<rparr>)
      | None \<Rightarrow> do {
          dest \<leftarrow> safeRandom (hardwareAddr st) r;
          Some (st\<lparr>hardwareAddr := dest[0 := dest ! 0 OR 0x01]\<rparr>)
        })"

text \<open>
  \<^verbatim>\<open>initStorage(seq *uint16, addr [6]byte)\<close>. The value written through \<^verbatim>\<open>seq\<close> is
  returned, and the caller stores it where its pointer points. \<open>r1\<close> is the outcome of
  the call to \<^verbatim>\<open>rand.Read\<close> in \<^verbatim>\<open>initClockSequence\<close>, \<open>r2\<close> of the one in
  \<^verbatim>\<open>initHardwareAddr\<close>.
\<close>

definition initStorage ::
  "rand_result \<Rightarrow> interfaces_result \<Rightarrow> rand_result \<Rightarrow> byte list \<Rightarrow> storage
     \<Rightarrow> (uint16 \<times> storage) option" where
  "initStorage r1 ifs r2 addr st = do {
     seq \<leftarrow> initClockSequence r1;
     st' \<leftarrow> initHardwareAddr addr ifs r2 st;
     Some (seq, st')
   }"

subsection \<open>SatoriGenerator\<close>

text \<open>
  The struct without its mutex, which makes the body of its \<^verbatim>\<open>getStorage\<close> one step.
  In that body the unqualified names \<^verbatim>\<open>lastTime\<close>, \<^verbatim>\<open>clockSequence\<close> and
  \<^verbatim>\<open>hardwareAddr\<close> are the package-level variables; the fields are written \<^verbatim>\<open>g.\<close>.
\<close>

record SatoriGenerator =
  sg_clockSequence :: uint16
  sg_lastTime :: uint64
  sg_hardwareAddr :: "byte list"

definition NewSatoriGenerator ::
  "rand_result \<Rightarrow> interfaces_result \<Rightarrow> rand_result \<Rightarrow> storage
     \<Rightarrow> (SatoriGenerator \<times> storage) option" where
  "NewSatoriGenerator r1 ifs r2 st = do {
     let gen = \<lparr>sg_clockSequence = 0, sg_lastTime = 0, sg_hardwareAddr = replicate 6 0\<rparr>;
     (seq, st') \<leftarrow> initStorage r1 ifs r2 (sg_hardwareAddr gen) st;
     Some (gen\<lparr>sg_clockSequence := seq\<rparr>, st')
   }"

definition SatoriGenerator_getStorage ::
  "uint64 \<Rightarrow> SatoriGenerator \<Rightarrow> storage \<Rightarrow> (uint64 \<times> uint16 \<times> byte list) \<times> SatoriGenerator" where
  "SatoriGenerator_getStorage timeNow g st =
     (let g1 = (if timeNow \<le> lastTime st
                then g\<lparr>sg_clockSequence := sg_clockSequence g + 1\<rparr> else g);
          g2 = g1\<lparr>sg_lastTime := timeNow\<rparr>
      in ((timeNow, clockSequence st, hardwareAddr st), g2))"

definition SatoriGenerator_NewV1 ::
  "uint64 \<Rightarrow> SatoriGenerator \<Rightarrow> storage \<Rightarrow> (UUID \<times> SatoriGenerator) option" where
  "SatoriGenerator_NewV1 timeNow g st =
     (case SatoriGenerator_getStorage timeNow g st of
        ((t, clockSeq, hwAddr), g') \<Rightarrow>
          map_option (\<lambda>u. (u, g')) (encodeV1 t clockSeq hwAddr))"

subsection \<open>Channels, goroutines and the state of the program\<close>

text \<open>
  A buffered channel: its capacity and the values waiting in it. A send (\<^verbatim>\<open>c <- u\<close>)
  goes through when there is room, a receive (\<^verbatim>\<open><-c\<close>) when a value waits; \<open>None\<close>
  means that the goroutine stays blocked. The program sends and receives on one channel
  only, the package-level \<^verbatim>\<open>ch = make(chan UUID, 10)\<close>, so the rendezvous of an
  unbuffered channel is not needed: a channel of capacity 0 never has room here.
\<close>

record chan =
  cap :: nat
  buf :: "UUID list"

definition chan_send :: "UUID \<Rightarrow> chan \<Rightarrow> chan option" where
  "chan_send u c = (if length (buf c) < cap c then Some (c\<lparr>buf := buf c @ [u]\<rparr>) else None)"

definition chan_recv :: "chan \<Rightarrow> (UUID \<times> chan) option" where
  "chan_recv c = (case buf c of [] \<Rightarrow> None | u # us \<Rightarrow> Some (u, c\<lparr>buf := us\<rparr>))"

text \<open>
  A producing goroutine is either in the body of its loop, before the send, or at its
  send \<^verbatim>\<open>ch <- u\<close>, holding the \<open>u\<close> it has built.
\<close>

datatype worker = Computing | Sending UUID

text \<open>\<^verbatim>\<open>ChanneledGenerator\<close>; its field \<^verbatim>\<open>ch\<close> holds the address of a channel.\<close>

record ChanneledGenerator =
  cg_ch :: nat
  cg_clockSequence :: uint16
  cg_lastTime :: uint64
  cg_hardwareAddr :: "byte list"

text \<open>
  The state of the program: the package-level storage, the channels made so far (a
  channel's address is its index), the goroutine started by \<^verbatim>\<open>init\<close>, every
  \<^verbatim>\<open>ChanneledGenerator\<close> with its goroutine, and every \<^verbatim>\<open>SatoriGenerator\<close>.
\<close>

record world =
  globals :: storage
  chans :: "chan list"
  lockFreeWorker :: worker
  gens :: "(ChanneledGenerator \<times> worker) list"
  satoris :: "SatoriGenerator list"

text \<open>The package-level \<^verbatim>\<open>var ch = make(chan UUID, 10)\<close> is the first channel made.\<close>

definition ch :: nat where
  "ch = 0"

definition send :: "nat \<Rightarrow> UUID \<Rightarrow> world \<Rightarrow> world option" where
  "send a u w =
     (if a < length (chans w)
      then map_option (\<lambda>c. w\<lparr>chans := (chans w)[a := c]\<rparr>) (chan_send u (chans w ! a))
      else None)"

definition recv :: "nat \<Rightarrow> world \<Rightarrow> (UUID \<times> world) option" where
  "recv a w =
     (if a < length (chans w)
      then map_option (\<lambda>(u, c). (u, w\<lparr>chans := (chans w)[a := c]\<rparr>)) (chan_recv (chans w ! a))
      else None)"

text \<open>
  The package-level variables before \<^verbatim>\<open>init\<close> runs, and the two \<^verbatim>\<open>init\<close>
  functions: \<^verbatim>\<open>initStorage(&clockSequence, hardwareAddr)\<close> and
  \<^verbatim>\<open>go produceLockFreeUUIDs()\<close>. \<open>None\<close> is the panic.
\<close>

definition zero_storage :: storage where
  "zero_storage = \<lparr>clockSequence = 0, lastTime = 0, hardwareAddr = replicate 6 0\<rparr>"

definition init :: "rand_result \<Rightarrow> interfaces_result \<Rightarrow> rand_result \<Rightarrow> world option" where
  "init r1 ifs r2 = do {
     (seq, st) \<leftarrow> initStorage r1 ifs r2 (hardwareAddr zero_storage) zero_storage;
     Some \<lparr>globals = st\<lparr>clockSequence := seq\<rparr>,
           chans = [\<lparr>cap = 10, buf = []\<rparr>],
           lockFreeWorker = Computing,
           gens = [],
           satoris = []\<rparr>
   }"

text \<open>
  \<^verbatim>\<open>NewChanneledGenerator(chanSize int)\<close>. \<^verbatim>\<open>make(chan UUID, chanSize)\<close> panics on a
  negative size. The generator is returned by its index in \<^const>\<open>gens\<close>, where its
  goroutine starts at the top of \<^verbatim>\<open>produceUUIDs\<close>.
\<close>

definition NewChanneledGenerator ::
  "int \<Rightarrow> rand_result \<Rightarrow> interfaces_result \<Rightarrow> rand_result \<Rightarrow> world \<Rightarrow> (nat \<times> world) option" where
  "NewChanneledGenerator chanSize r1 ifs r2 w =
     (if chanSize < 0 then None
      else do {
        let gen = \<lparr>cg_ch = length (chans w), cg_clockSequence = 0, cg_lastTime = 0,
                   cg_hardwareAddr = replicate 6 0\<rparr>;
        let w1 = w\<lparr>chans := chans w @ [\<lparr>cap = nat chanSize, buf = []\<rparr>]\<rparr>;
        (seq, st') \<leftarrow> initStorage r1 ifs r2 (cg_hardwareAddr gen) (globals w1);
        Some (length (gens w1),
              w1\<lparr>globals := st', gens := gens w1 @ [(gen\<lparr>cg_clockSequence := seq\<rparr>, Computing)]\<rparr>)
      })"

definition ChanneledGenerator_getStorage ::
  "uint64 \<Rightarrow> ChanneledGenerator \<Rightarrow> storage
     \<Rightarrow> (uint64 \<times> uint16 \<times> byte list) \<times> ChanneledGenerator" where
  "ChanneledGenerator_getStorage timeNow g st =
     (let g1 = (if timeNow \<le> lastTime st
                then g\<lparr>cg_clockSequence := cg_clockSequence g + 1\<rparr> else g);
          g2 = g1\<lparr>cg_lastTime := timeNow\<rparr>
      in ((timeNow, clockSequence st, hardwareAddr st), g2))"

text \<open>
  One turn of the loop of \<^verbatim>\<open>produceUUIDs\<close>, in its two parts: the body up to the send,
  and the send \<^verbatim>\<open>ch <- u\<close>, where \<^verbatim>\<open>ch\<close> is the package-level channel.
\<close>

definition produceUUIDs_body ::
  "uint64 \<Rightarrow> ChanneledGenerator \<Rightarrow> storage \<Rightarrow> (UUID \<times> ChanneledGenerator) option" where
  "produceUUIDs_body timeNow g st =
     (case ChanneledGenerator_getStorage timeNow g st of
        ((t, clockSeq, hwAddr), g') \<Rightarrow>
          map_option (\<lambda>u. (u, g')) (encodeV1 t clockSeq hwAddr))"

definition produceUUIDs_send :: "ChanneledGenerator \<Rightarrow> UUID \<Rightarrow> world \<Rightarrow> world option" where
  "produceUUIDs_send g u w = send ch u w"

text \<open>\<^verbatim>\<open>func (g *ChanneledGenerator) NewV1() UUID { return <-ch }\<close>.\<close>

definition ChanneledGenerator_NewV1 :: "ChanneledGenerator \<Rightarrow> world \<Rightarrow> (UUID \<times> world) option" where
  "ChanneledGenerator_NewV1 g w = recv ch w"

text \<open>\<^verbatim>\<open>produceLockFreeUUIDs\<close>, in the same two parts, and \<^verbatim>\<open>NewV1LockFree\<close>.\<close>

definition produceLockFreeUUIDs_body :: "uint64 \<Rightarrow> storage \<Rightarrow> (UUID \<times> storage) option" where
  "produceLockFreeUUIDs_body timeNow st =
     (case getStorageLockFree timeNow st of
        ((t, clockSeq, hwAddr), st') \<Rightarrow>
          map_option (\<lambda>u. (u, st')) (encodeV1 t clockSeq hwAddr))"

definition produceLockFreeUUIDs_send :: "UUID \<Rightarrow> world \<Rightarrow> world option" where
  "produceLockFreeUUIDs_send u w = send ch u w"

definition NewV1LockFree :: "world \<Rightarrow> (UUID \<times> world) option" where
  "NewV1LockFree w = recv ch w"

subsection \<open>The steps of the program\<close>

text \<open>
  What can happen next: a caller runs one of the exported functions (with the reading its
  call of \<^verbatim>\<open>unixTimeFunc\<close> returns, or the outcomes of the calls to the random source
  and to \<^verbatim>\<open>net.Interfaces\<close>), or a producing goroutine runs one part of its loop.
  Generators are named by their index.
\<close>

datatype action =
    CallNewV1 uint64
  | CallNewV1LockFree
  | CallNewSatoriGenerator rand_result interfaces_result rand_result
  | CallSatoriNewV1 nat uint64
  | CallNewChanneledGenerator int rand_result interfaces_result rand_result
  | CallChanneledNewV1 nat
  | LockFreeBody uint64
  | LockFreeSend
  | ChanneledBody nat uint64
  | ChanneledSend nat

text \<open>
  The outcome of an action: it takes place, with the UUID handed to the caller if there is
  one, and the next state; or it cannot take place now (the goroutine is blocked at its
  channel operation, or is at the other part of its loop, or there is no such generator);
  or it panics.
\<close>

datatype 'a outcome = Ok 'a | NotNow | Panics

fun step :: "action \<Rightarrow> world \<Rightarrow> (UUID option \<times> world) outcome" where
  "step (CallNewV1 t) w =
     (case NewV1 t (globals w) of
        None \<Rightarrow> Panics
      | Some (u, st) \<Rightarrow> Ok (Some u, w\<lparr>globals := st\<rparr>))"
| "step CallNewV1LockFree w =
     (case NewV1LockFree w of
        None \<Rightarrow> NotNow
      | Some (u, w') \<Rightarrow> Ok (Some u, w'))"
| "step (CallNewSatoriGenerator r1 ifs r2) w =
     (case NewSatoriGenerator r1 ifs r2 (globals w) of
        None \<Rightarrow> Panics
      | Some (g, st) \<Rightarrow> Ok (None, w\<lparr>globals := st, satoris := satoris w @ [g]\<rparr>))"
| "step (CallSatoriNewV1 i t) w =
     (if i < length (satoris w)
      then (case SatoriGenerator_NewV1 t (satoris w ! i) (globals w) of
              None \<Rightarrow> Panics
            | Some (u, g) \<Rightarrow> Ok (Some u, w\<lparr>satoris := (satoris w)[i := g]\<rparr>))
      else NotNow)"
| "step (CallNewChanneledGenerator chanSize r1 ifs r2) w =
     (case NewChanneledGenerator chanSize r1 ifs r2 w of
        None \<Rightarrow> Panics
      | Some (i, w') \<Rightarrow> Ok (None, w'))"
| "step (CallChanneledNewV1 i) w =
     (if i < length (gens w)
      then (case ChanneledGenerator_NewV1 (fst (gens w ! i)) w of
              None \<Rightarrow> NotNow
            | Some (u, w') \<Rightarrow> Ok (Some u, w'))
      else NotNow)"
| "step (LockFreeBody t) w =
     (case lockFreeWorker w of
        Sending u \<Rightarrow> NotNow
      | Computing \<Rightarrow>
          (case produceLockFreeUUIDs_body t (globals w) of
             None \<Rightarrow> Panics
           | Some (u, st) \<Rightarrow> Ok (None, w\<lparr>globals := st, lockFreeWorker := Sending u\<rparr>)))"
| "step LockFreeSend w =
     (case lockFreeWorker w of
        Computing \<Rightarrow> NotNow
      | Sending u \<Rightarrow>
          (case produceLockFreeUUIDs_send u w of
             None \<Rightarrow> NotNow
           | Some w' \<Rightarrow> Ok (None, w'\<lparr>lockFreeWorker := Computing\<rparr>)))"
| "step (ChanneledBody i t) w =
     (if i < length (gens w)
      then (case gens w ! i of
              (g, Sending u) \<Rightarrow> NotNow
            | (g, Computing) \<Rightarrow>
                (case produceUUIDs_body t g (globals w) of
                   None \<Rightarrow> Panics
                 | Some (u, g') \<Rightarrow> Ok (None, w\<lparr>gens := (gens w)[i := (g', Sending u)]\<rparr>)))
      else NotNow)"
| "step (ChanneledSend i) w =
     (if i < length (gens w)
      then (case gens w ! i of
              (g, Computing) \<Rightarrow> NotNow
            | (g, Sending u) \<Rightarrow>
                (case produceUUIDs_send g u w of
                   None \<Rightarrow> NotNow
                 | Some w' \<Rightarrow> Ok (None, w'\<lparr>gens := (gens w')[i := (g, Computing)]\<rparr>)))
      else NotNow)"

text \<open>The states the program can be in: after \<^verbatim>\<open>init\<close>, and after any step from one.\<close>

inductive reachable :: "world \<Rightarrow> bool" where
  reachable_init: "init r1 ifs r2 = Some w \<Longrightarrow> reachable w"
| reachable_step: "reachable w \<Longrightarrow> step a w = Ok (r, w') \<Longrightarrow> reachable w'"

text \<open>A run: actions one after the other, with the UUIDs handed to the callers, in order.\<close>

fun run :: "action list \<Rightarrow> world \<Rightarrow> (UUID list \<times> world) outcome" where
  "run [] w = Ok ([], w)"
| "run (a # as) w =
     (case step a w of
        Ok (r, w') \<Rightarrow>
          (case run as w' of
             Ok (us, w'') \<Rightarrow> Ok ((case r of None \<Rightarrow> us | Some u \<Rightarrow> u # us), w'')
           | NotNow \<Rightarrow> NotNow
           | Panics \<Rightarrow> Panics)
      | NotNow \<Rightarrow> NotNow
      | Panics \<Rightarrow> Panics)"

text \<open>
  The UUIDs that are on their way to a caller: those waiting in a channel and those a
  producing goroutine holds at its send.
\<close>

fun pending :: "worker \<Rightarrow> UUID list" where
  "pending Computing = []"
| "pending (Sending u) = [u]"

definition in_flight :: "world \<Rightarrow> UUID set" where
  "in_flight w =
     (\<Union>c \<in> set (chans w). set (buf c)) \<union> set (pending (lockFreeWorker w)) \<union>
     (\<Union>gk \<in> set (gens w). set (pending (snd gk)))"

text \<open>
  What holds in every state the program reaches: the UUIDs on their way have version 1
  and the RFC 4122 variant, and the package-level channel is there, with capacity 10.
\<close>

definition invariant :: "world \<Rightarrow> bool" where
  "invariant w \<longleftrightarrow>
     (\<forall>u \<in> in_flight w. versionNibble u = 1 \<and> variantBits u = 2) \<and>
     chans w \<noteq> [] \<and> cap (chans w ! ch) = 10"



subsection \<open>String rendering\<close>

text \<open>
  \<^verbatim>\<open>hex.Encode(dst[j:], src)\<close> of \<^verbatim>\<open>encoding/hex\<close>:
  \<^verbatim>\<open>dst[j] = hextable[v>>4]; dst[j+1] = hextable[v&0x0f]; j += 2\<close> for each \<open>v\<close> of
  \<open>src\<close>, with \<^verbatim>\<open>hextable = "0123456789abcdef"\<close>. The buffer is a list of characters.
\<close>

definition hextable :: string where
  "hextable = ''0123456789abcdef''"

fun hex_Encode :: "string \<Rightarrow> nat \<Rightarrow> byte list \<Rightarrow> string" where
  "hex_Encode dst j [] = dst"
| "hex_Encode dst j (v # src) =
     hex_Encode (dst[j := hextable ! unat (drop_bit 4 v), j + 1 := hextable ! unat (v AND 0x0f)])
       (j + 2) src"

text \<open>The slice \<^verbatim>\<open>u[lo:hi]\<close>.\<close>

definition slice :: "'a list \<Rightarrow> nat \<Rightarrow> nat \<Rightarrow> 'a list" where
  "slice xs lo hi = take (hi - lo) (drop lo xs)"

text \<open>\<^verbatim>\<open>func (u UUID) String() string\<close>.\<close>

definition UUID_String :: "UUID \<Rightarrow> string" where
  "UUID_String u =
     (let buf0 = replicate 36 (CHR 0x00);
          buf1 = hex_Encode buf0 0 (slice u 0 4);
          buf2 = buf1[8 := dash];
          buf3 = hex_Encode buf2 9 (slice u 4 6);
          buf4 = buf3[13 := dash];
          buf5 = hex_Encode buf4 14 (slice u 6 8);
          buf6 = buf5[18 := dash];
          buf7 = hex_Encode buf6 19 (slice u 8 10);
          buf8 = buf7[23 := dash];
          buf9 = hex_Encode buf8 24 (slice u 10 16)
      in buf9)"

subsection \<open>Auxiliary definitions\<close>

text \<open>The ten bytes in front of the node id.\<close>

definition v1_head :: "uint64 \<Rightarrow> uint16 \<Rightarrow> byte list" where
  "v1_head t s =
     [ucast (drop_bit 24 t), ucast (drop_bit 16 t), ucast (drop_bit 8 t), ucast t,
      ucast (drop_bit 40 t), ucast (drop_bit 32 t),
      (ucast (drop_bit 56 t) AND 0x0f) OR 0x10, ucast (drop_bit 48 t),
      (ucast (drop_bit 8 s) AND 0xbf) OR 0x80, ucast s]"

subsection \<open>The canonical form, in the words of the specification\<close>

text \<open>
  The rendering as the specification words it: lowercase hexadecimal digits, two for each
  byte, the high nibble first, in groups of 8, 4, 4, 4 and 12 digits with \<open>-\<close> between
  them. It is compared with \<^const>\<open>UUID_String\<close> below.
\<close>

definition lower_hex_digit :: "nat \<Rightarrow> char" where
  "lower_hex_digit d = ''0123456789abcdef'' ! d"

definition lower_hex :: "byte list \<Rightarrow> string" where
  "lower_hex bs =
     concat (map (\<lambda>b. [lower_hex_digit (unat b div 16), lower_hex_digit (unat b mod 16)]) bs)"

definition canonical_form :: "UUID \<Rightarrow> string" where
  "canonical_form u =
     lower_hex (slice u 0 4) @ ''-'' @ lower_hex (slice u 4 6) @ ''-'' @
     lower_hex (slice u 6 8) @ ''-'' @ lower_hex (slice u 8 10) @ ''-'' @ lower_hex (slice u 10 16)"

text \<open>The two characters that \<^const>\<open>hex_Encode\<close> writes for one byte.\<close>

definition hx :: "byte \<Rightarrow> string" where
  "hx v = [hextable ! unat (drop_bit 4 v), hextable ! unat (v AND 0x0f)]"

section \<open>Properties\<close>

subsection \<open>Auxiliary facts about the encoder\<close>

lemma rep16: "replicate 16 (x::'a) = [x,x,x,x,x,x,x,x,x,x,x,x,x,x,x,x]"
  by (simp add: numeral_eq_Suc)

lemma rep6: "replicate 6 (x::'a) = [x,x,x,x,x,x]"
  by (simp add: numeral_eq_Suc)

lemma ucast_drop_32_8:
  "k \<le> 24 \<Longrightarrow> ucast (drop_bit k (ucast (t::uint64) :: uint32)) = (ucast (drop_bit k t) :: byte)"
  by (rule bit_word_eqI) (auto simp add: bit_simps)

lemma ucast_drop_16_8:
  "ucast (drop_bit 8 (ucast (drop_bit k (t::uint64)) :: uint16)) = (ucast (drop_bit (k + 8) t) :: byte)"
  by (rule bit_word_eqI) (auto simp add: bit_simps ac_simps)

lemma ucast_ucast_16_8: "ucast (ucast (w::uint64) :: uint16) = (ucast w :: byte)"
  by (rule bit_word_eqI) (auto simp add: bit_simps)

lemma ucast_ucast_32_8: "ucast (ucast (w::uint64) :: uint32) = (ucast w :: byte)"
  by (rule bit_word_eqI) (auto simp add: bit_simps)

lemma byte_consts:
  "(0x0f::byte) = mask 4" "(0x10::byte) = 2 ^ 4" "(0xbf::byte) = NOT (2 ^ 6)" "(0x80::byte) = 2 ^ 7"
  by (simp_all add: mask_eq_exp_minus_1)

lemma copy_tail:
  assumes "length xs = 10"
  shows "copy (xs @ replicate 6 0) 10 n = xs @ take 6 n @ replicate (6 - length n) (0::byte)"
proof -
  let ?k = "min 6 (length n)"
  have a: "take ?k n = take 6 n" by (simp add: min_def)
  have b: "drop (10 + ?k) (xs @ replicate 6 (0::byte)) = replicate (6 - length n) 0"
    using assms by (simp add: min_def)
  have c: "take 10 (xs @ replicate 6 (0::byte)) = xs" using assms by simp
  have d: "min (length (xs @ replicate 6 (0::byte)) - 10) (length n) = ?k" using assms by simp
  show ?thesis unfolding copy_def Let_def d a b c ..
qed

lemma encodeV1_general:
  "encodeV1 t s n = Some (v1_head t s @ take 6 n @ replicate (6 - length n) 0)"
proof -
  let ?xs = "[ucast (drop_bit 24 t), ucast (drop_bit 16 t), ucast (drop_bit 8 t), ucast t,
      ucast (drop_bit 40 t), ucast (drop_bit 32 t),
      ucast (drop_bit 56 t), ucast (drop_bit 48 t),
      ucast (drop_bit 8 s), ucast s :: byte]"
  have e: "encodeV1 t s n = Some (SetVariant (SetVersion (copy (?xs @ replicate 6 0) 10 n) 1))"
    by (simp add: encodeV1_def PutUint32_def PutUint16_def rep16 rep6
       ucast_drop_32_8 ucast_drop_16_8 ucast_ucast_16_8 ucast_ucast_32_8)
  show ?thesis unfolding e
    by (subst copy_tail) (simp_all add: SetVersion_def SetVariant_def v1_head_def)
qed

lemma encodeV1_node6:
  "length n = 6 \<Longrightarrow> encodeV1 t s n = Some (v1_head t s @ n)"
  by (simp add: encodeV1_general)

lemma v1_head_take_bit: "v1_head (take_bit 60 t) s = v1_head t s"
  unfolding v1_head_def byte_consts
  by simp (intro conjI; rule bit_word_eqI; auto simp add: bit_simps)

lemma take_bit_60_cong:
  "unat (t1::uint64) mod 2 ^ 60 = unat t2 mod 2 ^ 60 \<Longrightarrow> take_bit 60 t1 = take_bit 60 t2"
  by (metis take_bit_nat_def unsigned_take_bit_eq word_unat_eq_iff)

lemma version_nibble: "drop_bit 4 ((x AND 0x0f) OR 0x10 :: byte) = 1"
  unfolding byte_consts by (rule bit_word_eqI) (auto simp add: bit_simps)

lemma version_low: "take_bit 4 ((x AND 0x0f) OR 0x10 :: byte) = take_bit 4 x"
  unfolding byte_consts by (rule bit_word_eqI) (auto simp add: bit_simps)

lemma variant_bits: "drop_bit 6 ((x AND 0xbf) OR 0x80 :: byte) = 2"
  unfolding byte_consts by (rule bit_word_eqI) (auto simp add: bit_simps)

lemma variant_low: "take_bit 6 ((x AND 0xbf) OR 0x80 :: byte) = take_bit 6 x"
proof (rule bit_word_eqI)
  fix n assume "n < LENGTH(8)"
  show "bit (take_bit 6 ((x AND 0xbf) OR 0x80 :: byte)) n = bit (take_bit 6 x) n"
    unfolding byte_consts bit_take_bit_iff bit_or_iff bit_and_iff bit_not_iff bit_exp_iff
    by auto
qed

subsection \<open>The byte layout\<close>

text \<open>
  C1. For every timestamp \<open>t\<close>, clock sequence \<open>s\<close> and node id \<open>n\<close> of six bytes, the
  encoding succeeds with a UUID of 16 bytes: bytes 0 to 3 are the low 32 bits of \<open>t\<close>, most
  significant byte first, bytes 4 and 5 are bits 32 to 47, bytes 6 and 7 are bits 48 to 63
  with the top nibble of byte 6 replaced by 0001, bytes 8 and 9 are \<open>s\<close> with the top two
  bits of byte 8 replaced by 10, and bytes 10 to 15 are \<open>n\<close>.
\<close>

theorem encodeV1_layout:
  assumes "length n = 6"
  shows "\<exists>u. encodeV1 t s n = Some u \<and> length u = 16
     \<and> slice u 0 4 = [ucast (drop_bit 24 t), ucast (drop_bit 16 t), ucast (drop_bit 8 t), ucast t]
     \<and> slice u 4 6 = [ucast (drop_bit 40 t), ucast (drop_bit 32 t)]
     \<and> take_bit 4 (u ! 6) = take_bit 4 (ucast (drop_bit 56 t)) \<and> drop_bit 4 (u ! 6) = 1
     \<and> u ! 7 = ucast (drop_bit 48 t)
     \<and> take_bit 6 (u ! 8) = take_bit 6 (ucast (drop_bit 8 s)) \<and> drop_bit 6 (u ! 8) = 2
     \<and> u ! 9 = ucast s
     \<and> slice u 10 16 = n"
proof -
  define u where "u = v1_head t s @ n"
  have e: "encodeV1 t s n = Some u"
    unfolding u_def using assms by (rule encodeV1_node6)
  have len: "length u = 16"
    using assms by (simp add: u_def v1_head_def)
  have low: "slice u 0 4 = [ucast (drop_bit 24 t), ucast (drop_bit 16 t), ucast (drop_bit 8 t), ucast t]"
    by (simp add: u_def v1_head_def slice_def)
  have mid: "slice u 4 6 = [ucast (drop_bit 40 t), ucast (drop_bit 32 t)]"
    by (simp add: u_def v1_head_def slice_def)
  have b6: "u ! 6 = (ucast (drop_bit 56 t) AND 0x0f) OR 0x10"
    by (simp add: u_def v1_head_def)
  have b7: "u ! 7 = ucast (drop_bit 48 t)"
    by (simp add: u_def v1_head_def)
  have b8: "u ! 8 = (ucast (drop_bit 8 s) AND 0xbf) OR 0x80"
    by (simp add: u_def v1_head_def)
  have b9: "u ! 9 = ucast s"
    by (simp add: u_def v1_head_def)
  have node: "slice u 10 16 = n"
    using assms by (simp add: u_def v1_head_def slice_def)
  have v6: "take_bit 4 (u ! 6) = take_bit 4 (ucast (drop_bit 56 t))" "drop_bit 4 (u ! 6) = 1"
    unfolding b6 by (rule version_low, rule version_nibble)
  have v8: "take_bit 6 (u ! 8) = take_bit 6 (ucast (drop_bit 8 s))" "drop_bit 6 (u ! 8) = 2"
    unfolding b8 by (rule variant_low, rule variant_bits)
  from e len low mid v6 b7 v8 b9 node show ?thesis
    by blast
qed

theorem encodeV1_layout_witness:
  "length [1, 2, 3, 4, 5, 6 :: byte] = 6 \<and>
   encodeV1 0x0123456789abcdef 0xfedc [1, 2, 3, 4, 5, 6] =
     Some [0x89, 0xab, 0xcd, 0xef, 0x45, 0x67, 0x11, 0x23, 0xbe, 0xdc, 1, 2, 3, 4, 5, 6]"
proof -
  have h: "length [1, 2, 3, 4, 5, 6 :: byte] = 6" by simp
  obtain u where u: "encodeV1 0x0123456789abcdef 0xfedc [1, 2, 3, 4, 5, 6] = Some u"
    using encodeV1_layout [OF h, of "0x0123456789abcdef" "0xfedc"] by blast
  have "encodeV1 0x0123456789abcdef 0xfedc [1, 2, 3, 4, 5, 6] =
     Some [0x89, 0xab, 0xcd, 0xef, 0x45, 0x67, 0x11, 0x23, 0xbe, 0xdc, 1, 2, 3, 4, 5, 6]"
    by (simp add: encodeV1_def PutUint32_def PutUint16_def rep16 copy_def
        SetVersion_def SetVariant_def)
  with h show ?thesis by simp
qed

text \<open>
  C10. The encoding does not see bits 60 to 63 of the timestamp: timestamps that are
  congruent modulo \<open>2 ^ 60\<close> give the same UUID, byte for byte, for every clock sequence and
  node id.
\<close>

theorem encodeV1_timestamp_mod:
  assumes "unat t1 mod 2 ^ 60 = unat t2 mod 2 ^ 60"
  shows "encodeV1 t1 s n = encodeV1 t2 s n"
proof -
  have "take_bit 60 t1 = take_bit 60 t2"
    using assms by (rule take_bit_60_cong)
  then have "v1_head t1 s = v1_head t2 s"
    by (metis v1_head_take_bit)
  then show ?thesis
    by (simp add: encodeV1_general)
qed

theorem encodeV1_timestamp_mod_witness:
  "unat (0x1000000000000005 :: uint64) mod 2 ^ 60 = unat (0xf000000000000005 :: uint64) mod 2 ^ 60 \<and>
   encodeV1 0x1000000000000005 0xfedc [1, 2, 3, 4, 5, 6] =
   encodeV1 0xf000000000000005 0xfedc [1, 2, 3, 4, 5, 6]"
proof -
  have h: "unat (0x1000000000000005 :: uint64) mod 2 ^ 60
         = unat (0xf000000000000005 :: uint64) mod 2 ^ 60"
    by simp
  show ?thesis
    using h encodeV1_timestamp_mod [OF h, of "0xfedc" "[1, 2, 3, 4, 5, 6]"] by simp
qed

subsection \<open>The timestamp source\<close>

lemma sdiv100_bounds:
  fixes k :: int
  assumes "- (2 ^ 63) \<le> k" "k < 2 ^ 63"
  shows "- 92233720368547758 \<le> k sdiv 100" "k sdiv 100 \<le> 92233720368547758"
proof -
  have "\<bar>k\<bar> \<le> 9223372036854775808"
    using assms by simp
  then have "\<bar>k\<bar> div 100 \<le> 9223372036854775808 div 100"
    by (rule zdiv_mono1) simp
  then have a: "\<bar>k\<bar> div 100 \<le> 92233720368547758"
    by simp
  have b: "0 \<le> \<bar>k\<bar> div 100" by simp
  show "- 92233720368547758 \<le> k sdiv 100" "k sdiv 100 \<le> 92233720368547758"
    using a b by (auto simp add: signed_divide_int_def sgn_if)
qed

lemma unixTimeFunc_uint:
  "uint (unixTimeFunc v) = 122192928000000000 + sint v sdiv 100"
proof -
  let ?q = "sint v sdiv 100"
  have r1: "- (2 ^ 63) \<le> sint v" using sint_ge [of v] by simp
  have r2: "sint v < 2 ^ 63" using sint_lt [of v] by simp
  note b = sdiv100_bounds [OF r1 r2]
  have "uint (unixTimeFunc v) = (122192928000000000 + ?q) mod 2 ^ 64"
    by (simp add: unixTimeFunc_def epochStart_def uint_word_ariths uint_word_of_int mod_simps)
  also have "\<dots> = 122192928000000000 + ?q"
    using b by (intro mod_pos_pos_trivial) simp_all
  finally show ?thesis .
qed

lemma sdiv_floor:
  fixes k :: int
  shows "0 \<le> k \<or> 100 dvd k \<Longrightarrow> k sdiv 100 = k div 100"
  by (auto simp add: signed_divide_int_eq_divide_int sgn_if)

lemma unixTimeFunc_lt: "unixTimeFunc v < 2 ^ 60"
proof -
  have r1: "- (2 ^ 63) \<le> sint v" using sint_ge [of v] by simp
  have r2: "sint v < 2 ^ 63" using sint_lt [of v] by simp
  note b = sdiv100_bounds [OF r1 r2]
  have "uint (unixTimeFunc v) < 2 ^ 60"
    unfolding unixTimeFunc_uint using b by simp
  then show ?thesis
    by (simp add: word_less_def)
qed
text \<open>
  C7, as the code has it. For every reading \<open>v\<close> of the clock, \<^const>\<open>unixTimeFunc\<close> returns
  \<open>122192928000000000\<close> plus \<open>v / 100\<close> rounded towards zero, with no wrap-around; this is
  \<open>122192928000000000 + \<lfloor>v / 100\<rfloor>\<close> when \<open>v\<close> is not negative or is a multiple of 100.
\<close>

theorem unixTimeFunc_truncates:
  "uint (unixTimeFunc v) = 122192928000000000 + sint v sdiv 100 \<and>
   (0 \<le> sint v \<or> 100 dvd sint v \<longrightarrow>
      uint (unixTimeFunc v) = 122192928000000000 + sint v div 100)"
  using sdiv_floor [of "sint v"] by (simp add: unixTimeFunc_uint)

theorem unixTimeFunc_truncates_witness:
  "0 \<le> sint (1234567 :: int64) \<and> uint (unixTimeFunc 1234567) = 122192928000012345"
  using unixTimeFunc_truncates [of 1234567] by simp

text \<open>
  One tick before the Unix epoch the quotient is rounded up to 0, not down to \<open>- 1\<close>: the
  result is \<open>122192928000000000\<close>, and the floor would give \<open>122192927999999999\<close>.
\<close>

theorem unixTimeFunc_floor_counterexample:
  "uint (unixTimeFunc (- 1)) = 122192928000000000 \<and>
   uint (unixTimeFunc (- 1)) \<noteq> 122192928000000000 + sint (- 1 :: int64) div 100"
  by (simp add: unixTimeFunc_uint signed_divide_int_def)

subsection \<open>The fields of an encoded UUID\<close>

lemma low_byte: "ucast (ucast (t::uint64) :: byte) = (take_bit 8 t :: uint64)"
  by (rule bit_word_eqI) (auto simp add: bit_simps)

lemma join_byte:
  "k + 8 \<le> 64 \<Longrightarrow>
   push_bit k (ucast (ucast (drop_bit k (t::uint64)) :: byte)) OR take_bit k t = (take_bit (k + 8) t :: uint64)"
  by (rule bit_word_eqI) (auto simp add: bit_simps)

lemma bit_int_numerals:
  "bit (0x0f::int) m \<longleftrightarrow> m < 4"
  "bit (0x10::int) m \<longleftrightarrow> m = 4"
  "bit (0x3f::int) m \<longleftrightarrow> m < 6"
  "bit (0x40::int) m \<longleftrightarrow> m = 6"
  "bit (0x80::int) m \<longleftrightarrow> m = 7"
proof -
  have e: "(0x0f::int) = mask 4" "(0x10::int) = 2 ^ 4" "(0x3f::int) = mask 6"
    "(0x40::int) = 2 ^ 6" "(0x80::int) = 2 ^ 7"
    by (simp_all add: mask_eq_exp_minus_1)
  show "bit (0x0f::int) m \<longleftrightarrow> m < 4" unfolding e bit_mask_iff by auto
  show "bit (0x10::int) m \<longleftrightarrow> m = 4" unfolding e bit_exp_iff by auto
  show "bit (0x3f::int) m \<longleftrightarrow> m < 6" unfolding e bit_mask_iff by auto
  show "bit (0x40::int) m \<longleftrightarrow> m = 6" unfolding e bit_exp_iff by auto
  show "bit (0x80::int) m \<longleftrightarrow> m = 7" unfolding e bit_exp_iff by auto
qed

lemma join_nibble:
  "push_bit 56 (ucast ((((ucast (drop_bit 56 (t::uint64)) :: byte) AND 0x0f) OR 0x10) AND 0x0f)) OR take_bit 56 t
     = (take_bit 60 t :: uint64)"
  by (rule bit_word_eqI) (auto simp add: bit_simps bit_int_numerals)

lemma join_clock:
  "push_bit 8 (ucast ((((ucast (drop_bit 8 (s::uint16)) :: byte) AND 0xbf) OR 0x80) AND 0x3f)) OR ucast (ucast s :: byte)
     = (take_bit 14 s :: uint16)"
  unfolding byte_consts(3)
  by (rule bit_word_eqI) (auto simp add: bit_simps bit_int_numerals)

lemma timestampField_head: "timestampField (v1_head t s @ rest) = take_bit 60 t"
proof -
  have "timestampField (v1_head t s @ rest) =
     push_bit 56 (ucast ((((ucast (drop_bit 56 t) :: byte) AND 0x0f) OR 0x10) AND 0x0f)) OR
     (push_bit 48 (ucast (ucast (drop_bit 48 t) :: byte)) OR
     (push_bit 40 (ucast (ucast (drop_bit 40 t) :: byte)) OR
     (push_bit 32 (ucast (ucast (drop_bit 32 t) :: byte)) OR
     (push_bit 24 (ucast (ucast (drop_bit 24 t) :: byte)) OR
     (push_bit 16 (ucast (ucast (drop_bit 16 t) :: byte)) OR
     (push_bit 8 (ucast (ucast (drop_bit 8 t) :: byte)) OR take_bit 8 t))))))"
    unfolding timestampField_def v1_head_def low_byte [symmetric] by (simp add: ac_simps)
  also have "\<dots> = take_bit 60 t"
    using join_byte [of 8 t] join_byte [of 16 t] join_byte [of 24 t] join_byte [of 32 t]
      join_byte [of 40 t] join_byte [of 48 t] join_nibble [of t]
    by simp
  finally show ?thesis .
qed

lemma clockSeqField_head: "clockSeqField (v1_head t s @ rest) = take_bit 14 s"
  unfolding clockSeqField_def v1_head_def using join_clock [of s] by simp

subsection \<open>The storage step and the clock sequence\<close>

lemma NewV1_eq:
  "NewV1 t st =
     Some (v1_head t (if t \<le> lastTime st then clockSequence st + 1 else clockSequence st)
             @ take 6 (hardwareAddr st) @ replicate (6 - length (hardwareAddr st)) 0,
           st\<lparr>clockSequence := (if t \<le> lastTime st then clockSequence st + 1 else clockSequence st),
              lastTime := t\<rparr>)"
  by (simp add: NewV1_def getStorage_def encodeV1_general Let_def)

lemma unat_take_bit_14: "unat (take_bit 14 (c :: uint16)) = unat c mod 16384"
  by (simp only: unsigned_take_bit_eq) (simp add: take_bit_eq_mod)

lemma unat_take_bit_14_succ:
  "unat (take_bit 14 (c + 1 :: uint16)) = (unat (take_bit 14 c) + 1) mod 16384"
proof -
  have b: "unat (c + 1) = (unat c + 1) mod 65536"
    by (simp add: unat_word_ariths)
  have "((unat c + 1) mod 65536) mod 16384 = (unat c mod 16384 + 1) mod 16384"
    by (simp add: mod_mod_cancel mod_simps)
  then show ?thesis
    unfolding unat_take_bit_14 b .
qed

lemma take_bit_60_less:
  assumes "t1 < t2" "t2 < (2 ^ 60 :: uint64)"
  shows "take_bit 60 t1 < take_bit 60 t2"
proof -
  have "t1 < 2 ^ 60" using assms by simp
  then have "take_bit 60 t1 = t1" "take_bit 60 t2 = t2"
    using assms by (simp_all add: take_bit_eq_mask less_mask_eq)
  then show ?thesis using assms by simp
qed

text \<open>
  C2, as the code has it. \<^const>\<open>getStorage\<close> returns the reading \<open>t\<close> with the resulting
  clock sequence and the node id, sets \<^const>\<open>lastTime\<close> to \<open>t\<close>, and adds one to
  \<^const>\<open>clockSequence\<close>, wrapping at 65536, exactly when \<open>t \<le> lastTime\<close>; otherwise it
  leaves it. With the same reading twice in a row, the second UUID has the same timestamp
  field, the generator's clock sequence is one greater modulo 65536, and the clock-sequence
  field of the UUID, which has 14 bits, is one greater modulo 16384. With a greater second
  reading the clock sequence is unchanged, in the generator and in the UUID, and the
  timestamp field of the second UUID is greater: for every pair of readings of
  \<^const>\<open>unixTimeFunc\<close>, and for any timestamps when the second is below \<open>2 ^ 60\<close>.
\<close>

theorem getStorage_clock_sequence:
  "fst (getStorage t st) = (t, clockSequence (snd (getStorage t st)), hardwareAddr st) \<and>
   lastTime (snd (getStorage t st)) = t \<and>
   hardwareAddr (snd (getStorage t st)) = hardwareAddr st \<and>
   ((clockSequence (snd (getStorage t st)) = clockSequence st + 1) = (t \<le> lastTime st)) \<and>
   ((clockSequence (snd (getStorage t st)) = clockSequence st) = (\<not> t \<le> lastTime st)) \<and>
   unat (clockSequence st + 1) = (unat (clockSequence st) + 1) mod 65536 \<and>
   (\<exists>u1 st1 u2 st2.
      NewV1 t st = Some (u1, st1) \<and> NewV1 t st1 = Some (u2, st2) \<and>
      timestampField u2 = timestampField u1 \<and>
      clockSequence st2 = clockSequence st1 + 1 \<and>
      unat (clockSeqField u2) = (unat (clockSeqField u1) + 1) mod 16384) \<and>
   (t < t2 \<longrightarrow>
     (\<exists>u1 st1 u2 st2.
        NewV1 t st = Some (u1, st1) \<and> NewV1 t2 st1 = Some (u2, st2) \<and>
        clockSequence st2 = clockSequence st1 \<and>
        clockSeqField u2 = clockSeqField u1 \<and>
        (t2 < 2 ^ 60 \<longrightarrow> timestampField u1 < timestampField u2))) \<and>
   (unixTimeFunc v1 < unixTimeFunc v2 \<longrightarrow>
     (\<exists>u1 st1 u2 st2.
        NewV1 (unixTimeFunc v1) st = Some (u1, st1) \<and>
        NewV1 (unixTimeFunc v2) st1 = Some (u2, st2) \<and>
        timestampField u1 < timestampField u2 \<and>
        clockSequence st2 = clockSequence st1 \<and>
        clockSeqField u2 = clockSeqField u1))"
proof -
  have a: "fst (getStorage t st) = (t, clockSequence (snd (getStorage t st)), hardwareAddr st)"
    "lastTime (snd (getStorage t st)) = t"
    "hardwareAddr (snd (getStorage t st)) = hardwareAddr st"
    "(clockSequence (snd (getStorage t st)) = clockSequence st + 1) = (t \<le> lastTime st)"
    "(clockSequence (snd (getStorage t st)) = clockSequence st) = (\<not> t \<le> lastTime st)"
    by (simp_all add: getStorage_def Let_def)
  have w: "unat (clockSequence st + 1) = (unat (clockSequence st) + 1) mod 65536"
    by (simp add: unat_word_ariths)
  have same: "\<exists>u1 st1 u2 st2.
      NewV1 t st = Some (u1, st1) \<and> NewV1 t st1 = Some (u2, st2) \<and>
      timestampField u2 = timestampField u1 \<and>
      clockSequence st2 = clockSequence st1 + 1 \<and>
      unat (clockSeqField u2) = (unat (clockSeqField u1) + 1) mod 16384"
    unfolding NewV1_eq
    by (simp add: timestampField_head clockSeqField_head unat_take_bit_14_succ)
  have incr: "\<exists>u1 st1 u2 st2.
        NewV1 a st = Some (u1, st1) \<and> NewV1 b st1 = Some (u2, st2) \<and>
        clockSequence st2 = clockSequence st1 \<and>
        clockSeqField u2 = clockSeqField u1 \<and>
        (b < 2 ^ 60 \<longrightarrow> timestampField u1 < timestampField u2)" if "a < b" for a b
    unfolding NewV1_eq using that take_bit_60_less [OF that]
    by (simp add: timestampField_head clockSeqField_head)
  have clock: "\<exists>u1 st1 u2 st2.
        NewV1 (unixTimeFunc v1) st = Some (u1, st1) \<and>
        NewV1 (unixTimeFunc v2) st1 = Some (u2, st2) \<and>
        timestampField u1 < timestampField u2 \<and>
        clockSequence st2 = clockSequence st1 \<and>
        clockSeqField u2 = clockSeqField u1" if "unixTimeFunc v1 < unixTimeFunc v2"
    using incr [OF that] unixTimeFunc_lt [of v2] by blast
  from a w same incr [of t t2] clock show ?thesis by blast
qed

lemma unixTimeFunc_100_200: "unixTimeFunc 100 < unixTimeFunc 200"
  by (simp add: word_less_def unixTimeFunc_uint signed_divide_int_def)

theorem getStorage_clock_sequence_witness:
  "(7 :: uint64) < 9 \<and> (9 :: uint64) < 2 ^ 60 \<and> unixTimeFunc 100 < unixTimeFunc 200 \<and>
   (\<exists>u1 st1 u2 st2.
      NewV1 7 \<lparr>clockSequence = 0x3fff, lastTime = 5, hardwareAddr = [1, 2, 3, 4, 5, 6]\<rparr>
        = Some (u1, st1) \<and>
      NewV1 9 st1 = Some (u2, st2) \<and>
      timestampField u1 < timestampField u2 \<and>
      clockSequence st2 = clockSequence st1 \<and>
      clockSeqField u2 = clockSeqField u1) \<and>
   (\<exists>u1 st1 u2 st2.
      NewV1 (unixTimeFunc 100)
          \<lparr>clockSequence = 0x3fff, lastTime = 5, hardwareAddr = [1, 2, 3, 4, 5, 6]\<rparr>
        = Some (u1, st1) \<and>
      NewV1 (unixTimeFunc 200) st1 = Some (u2, st2) \<and>
      timestampField u1 < timestampField u2 \<and>
      clockSequence st2 = clockSequence st1 \<and>
      clockSeqField u2 = clockSeqField u1)"
proof -
  have h: "(7 :: uint64) < 9 \<and> (9 :: uint64) < 2 ^ 60"
    by simp
  from h unixTimeFunc_100_200 getStorage_clock_sequence
    [of 7 "\<lparr>clockSequence = 0x3fff, lastTime = 5, hardwareAddr = [1, 2, 3, 4, 5, 6]\<rparr>" 9 100 200]
  show ?thesis
    by blast
qed

text \<open>
  The same reading twice, from a clock sequence of \<open>0x3fff\<close>: the generator goes on to
  \<open>0x4000\<close>, and bytes 8 and 9 of the UUID go from \<open>bf ff\<close> to \<open>80 00\<close>, so the field goes
  from \<open>0x3fff\<close> to 0, which is not one greater modulo 65536, with or without the variant
  bits.
\<close>

theorem clock_sequence_field_counterexample:
  "NewV1 7 \<lparr>clockSequence = 0x3fff, lastTime = 5, hardwareAddr = [1, 2, 3, 4, 5, 6]\<rparr>
     = Some ([0, 0, 0, 7, 0, 0, 0x10, 0, 0xbf, 0xff, 1, 2, 3, 4, 5, 6],
             \<lparr>clockSequence = 0x3fff, lastTime = 7, hardwareAddr = [1, 2, 3, 4, 5, 6]\<rparr>) \<and>
   NewV1 7 \<lparr>clockSequence = 0x3fff, lastTime = 7, hardwareAddr = [1, 2, 3, 4, 5, 6]\<rparr>
     = Some ([0, 0, 0, 7, 0, 0, 0x10, 0, 0x80, 0, 1, 2, 3, 4, 5, 6],
             \<lparr>clockSequence = 0x4000, lastTime = 7, hardwareAddr = [1, 2, 3, 4, 5, 6]\<rparr>) \<and>
   unat (clockSeqField [0, 0, 0, 7, 0, 0, 0x10, 0, 0x80, 0, 1, 2, 3, 4, 5, 6])
     \<noteq> (unat (clockSeqField [0, 0, 0, 7, 0, 0, 0x10, 0, 0xbf, 0xff, 1, 2, 3, 4, 5, 6]) + 1) mod 65536 \<and>
   Uint16 (slice [0, 0, 0, 7, 0, 0, 0x10, 0, 0x80, 0, 1, 2, 3, 4, 5, 6] 8 10) = Some 0x8000 \<and>
   Uint16 (slice [0, 0, 0, 7, 0, 0, 0x10, 0, 0xbf, 0xff, 1, 2, 3, 4, 5, 6] 8 10) = Some 0xbfff"
  by (simp add: NewV1_eq v1_head_def clockSeqField_def Uint16_def slice_def)

subsection \<open>String rendering\<close>

lemma len16:
  assumes "length (u::'a list) = 16"
  obtains b0 b1 b2 b3 b4 b5 b6 b7 b8 b9 b10 b11 b12 b13 b14 b15
  where "u = [b0,b1,b2,b3,b4,b5,b6,b7,b8,b9,b10,b11,b12,b13,b14,b15]"
proof -
  from assms have "u = map (\<lambda>i. u ! i) [0..<16]"
    by (metis map_nth)
  also have "[0..<16] = [0,1,2,3,4,5,6,7,8,9,10,11,12,13,14,15]"
    by (simp add: upt_rec)
  finally show ?thesis using that by simp
qed

lemma rep36: "replicate 36 (x::'a) = [x,x,x,x,x,x,x,x,x,x,x,x,x,x,x,x,x,x,x,x,x,x,x,x,x,x,x,x,x,x,x,x,x,x,x,x]"
  by (simp add: numeral_eq_Suc)

lemma String_explicit:
  "UUID_String [b0,b1,b2,b3,b4,b5,b6,b7,b8,b9,b10,b11,b12,b13,b14,b15] =
     hx b0 @ hx b1 @ hx b2 @ hx b3 @ [dash] @ hx b4 @ hx b5 @ [dash] @ hx b6 @ hx b7 @ [dash] @
     hx b8 @ hx b9 @ [dash] @ hx b10 @ hx b11 @ hx b12 @ hx b13 @ hx b14 @ hx b15"
  by (simp add: UUID_String_def slice_def rep36 hx_def Let_def)


lemma lt16_cases:
  "d < 16 \<Longrightarrow> d = 0 \<or> d = 1 \<or> d = 2 \<or> d = 3 \<or> d = 4 \<or> d = 5 \<or> d = 6 \<or> d = 7 \<or> d = 8
     \<or> d = 9 \<or> d = 10 \<or> d = 11 \<or> d = 12 \<or> d = 13 \<or> d = 14 \<or> d = (15::nat)"
  by arith

lemma hextable_digit: "d < 16 \<Longrightarrow> hextable ! d = lower_hex_digit d"
  by (drule lt16_cases) (auto simp add: hextable_def lower_hex_digit_def)

lemma digit_in_hextable: "d < 16 \<Longrightarrow> lower_hex_digit d \<in> set ''0123456789abcdef''"
  by (drule lt16_cases) (auto simp add: lower_hex_digit_def)

lemma hx_eq: "hx v = [lower_hex_digit (unat v div 16), lower_hex_digit (unat v mod 16)]"
proof -
  have a: "unat (drop_bit 4 v) = unat v div 16"
    by (simp only: unat_drop_bit_eq) (simp add: drop_bit_eq_div)
  have b: "unat (v AND 0x0f) = unat v mod 16"
  proof -
    have "v AND 0x0f = take_bit 4 v"
      by (simp add: take_bit_eq_mask mask_eq_exp_minus_1)
    then show ?thesis
      by (simp only: unsigned_take_bit_eq) (simp add: take_bit_eq_mod)
  qed
  have c: "unat v div 16 < 16"
    using unsigned_less [of v, where ?'a = nat] by simp
  show ?thesis
    unfolding hx_def a b using c by (simp add: hextable_digit)
qed


lemma digit_code:
  "d < 16 \<Longrightarrow> of_char (lower_hex_digit d) = (if d < 10 then 48 + d else 87 + d)"
  by (drule lt16_cases) (auto simp add: lower_hex_digit_def)

lemma digit_hi: "lower_hex_digit (unat (v::byte) div 16) \<in> set hextable"
proof -
  have "unat v div 16 < 16"
    using unsigned_less [of v, where ?'a = nat] by simp
  then show ?thesis
    unfolding hextable_def by (rule digit_in_hextable)
qed

lemma digit_lo: "lower_hex_digit (unat (v::byte) mod 16) \<in> set hextable"
  unfolding hextable_def by (rule digit_in_hextable) simp

lemma canonical_explicit:
  "canonical_form [b0,b1,b2,b3,b4,b5,b6,b7,b8,b9,b10,b11,b12,b13,b14,b15] =
     hx b0 @ hx b1 @ hx b2 @ hx b3 @ [dash] @ hx b4 @ hx b5 @ [dash] @ hx b6 @ hx b7 @ [dash] @
     hx b8 @ hx b9 @ [dash] @ hx b10 @ hx b11 @ hx b12 @ hx b13 @ hx b14 @ hx b15"
  by (simp add: canonical_form_def slice_def lower_hex_def hx_eq dash_def)

lemma all_lt_36: "(\<forall>i<36. P i) = list_all P [0..<36]"
  by (auto simp add: list_all_iff)

lemma upt_36: "[0..<36] = [0,1,2,3,4,5,6,7,8,9,10,11,12,13,14,15,16,17,18,19,20,21,22,23,24,25,
    26,27,28,29,30,31,32,33,34,35]"
  by (simp add: upt_rec)

text \<open>
  C6. For every UUID \<open>u\<close> of 16 bytes, \<^const>\<open>UUID_String\<close> returns exactly 36 characters:
  \<open>-\<close> at indices 8, 13, 18 and 23 and a lowercase hexadecimal digit everywhere else; they
  are the digits of the 16 bytes in order, grouped 8-4-4-4-12, with nothing before or
  around them.
\<close>

theorem UUID_String_canonical:
  assumes "length u = 16"
  shows "UUID_String u = canonical_form u \<and> length (UUID_String u) = 36 \<and>
    (\<forall>i < 36. if i \<in> {8, 13, 18, 23} then UUID_String u ! i = CHR ''-''
               else UUID_String u ! i \<in> set ''0123456789abcdef'')"
proof -
  from assms obtain b0 b1 b2 b3 b4 b5 b6 b7 b8 b9 b10 b11 b12 b13 b14 b15
    where u: "u = [b0,b1,b2,b3,b4,b5,b6,b7,b8,b9,b10,b11,b12,b13,b14,b15]"
    by (rule len16)
  have eq: "UUID_String u = canonical_form u"
    unfolding u String_explicit canonical_explicit ..
  have len: "length (UUID_String u) = 36"
    unfolding u String_explicit by (simp add: hx_def)
  have chars: "\<forall>i < 36. if i \<in> {8, 13, 18, 23} then UUID_String u ! i = CHR ''-''
               else UUID_String u ! i \<in> set hextable"
    unfolding u String_explicit hx_eq all_lt_36 upt_36
    by (simp add: digit_hi digit_lo dash_def)
  from eq len chars [unfolded hextable_def] show ?thesis by blast
qed

theorem UUID_String_canonical_witness:
  "length [0x89, 0xab, 0xcd, 0xef, 0x45, 0x67, 0x11, 0x23, 0xbe, 0xdc, 1, 2, 3, 4, 5, 6 :: byte] = 16 \<and>
   UUID_String [0x89, 0xab, 0xcd, 0xef, 0x45, 0x67, 0x11, 0x23, 0xbe, 0xdc, 1, 2, 3, 4, 5, 6]
     = ''89abcdef-4567-1123-bedc-010203040506''"
proof -
  have h: "length [0x89, 0xab, 0xcd, 0xef, 0x45, 0x67, 0x11, 0x23, 0xbe, 0xdc, 1, 2, 3, 4, 5, 6 :: byte] = 16"
    by simp
  have "canonical_form [0x89, 0xab, 0xcd, 0xef, 0x45, 0x67, 0x11, 0x23, 0xbe, 0xdc, 1, 2, 3, 4, 5, 6]
     = ''89abcdef-4567-1123-bedc-010203040506''"
    by (simp add: canonical_form_def slice_def lower_hex_def lower_hex_digit_def)
  with h UUID_String_canonical [OF h] show ?thesis by simp
qed

subsection \<open>SatoriGenerator and the package-level storage\<close>

text \<open>
  C3 says that \<^verbatim>\<open>SatoriGenerator.NewV1\<close> reads and writes the fields of its generator only.
  The code compares with the package-level \<^verbatim>\<open>lastTime\<close> and returns the package-level
  \<^verbatim>\<open>clockSequence\<close> and \<^verbatim>\<open>hardwareAddr\<close>. Here the generator has clock sequence 9 and a
  node id of zeros, and the package has clock sequence 7 and node id \<open>01 02 03 04 05 06\<close>:
  the UUID carries 7 and the package's node id; a second call with the same reading returns
  the same UUID again, since the generator's own \<^verbatim>\<open>lastTime\<close> is not looked at; and a
  reading below the package's \<^verbatim>\<open>lastTime\<close> moves the generator's clock sequence, which
  the UUID does not show.
\<close>

theorem SatoriGenerator_uses_package_storage:
  "SatoriGenerator_NewV1 137000000000000005
     \<lparr>sg_clockSequence = 9, sg_lastTime = 0, sg_hardwareAddr = [0, 0, 0, 0, 0, 0]\<rparr>
     \<lparr>clockSequence = 7, lastTime = 137000000000000000, hardwareAddr = [1, 2, 3, 4, 5, 6]\<rparr>
   = Some ([0x2e, 0x3a, 0x80, 0x05, 0xb8, 0xc6, 0x11, 0xe6, 0x80, 0x07, 1, 2, 3, 4, 5, 6],
           \<lparr>sg_clockSequence = 9, sg_lastTime = 137000000000000005,
              sg_hardwareAddr = [0, 0, 0, 0, 0, 0]\<rparr>) \<and>
   SatoriGenerator_NewV1 137000000000000005
     \<lparr>sg_clockSequence = 9, sg_lastTime = 137000000000000005, sg_hardwareAddr = [0, 0, 0, 0, 0, 0]\<rparr>
     \<lparr>clockSequence = 7, lastTime = 137000000000000000, hardwareAddr = [1, 2, 3, 4, 5, 6]\<rparr>
   = Some ([0x2e, 0x3a, 0x80, 0x05, 0xb8, 0xc6, 0x11, 0xe6, 0x80, 0x07, 1, 2, 3, 4, 5, 6],
           \<lparr>sg_clockSequence = 9, sg_lastTime = 137000000000000005,
              sg_hardwareAddr = [0, 0, 0, 0, 0, 0]\<rparr>) \<and>
   SatoriGenerator_NewV1 136999999999999990
     \<lparr>sg_clockSequence = 9, sg_lastTime = 0, sg_hardwareAddr = [0, 0, 0, 0, 0, 0]\<rparr>
     \<lparr>clockSequence = 7, lastTime = 137000000000000000, hardwareAddr = [1, 2, 3, 4, 5, 6]\<rparr>
   = Some ([0x2e, 0x3a, 0x7f, 0xf6, 0xb8, 0xc6, 0x11, 0xe6, 0x80, 0x07, 1, 2, 3, 4, 5, 6],
           \<lparr>sg_clockSequence = 10, sg_lastTime = 136999999999999990,
              sg_hardwareAddr = [0, 0, 0, 0, 0, 0]\<rparr>)"
  by (simp add: SatoriGenerator_NewV1_def SatoriGenerator_getStorage_def encodeV1_general v1_head_def)

subsection \<open>ChanneledGenerator and the package-level channel\<close>

text \<open>
  C4 says that the goroutine of a \<^verbatim>\<open>ChanneledGenerator\<close> sends into the channel made at
  its construction, and that its \<^verbatim>\<open>NewV1\<close> receives from that channel. In the code both
  use the package-level \<^verbatim>\<open>ch\<close>. Here a generator is made with capacity 3, which makes
  channel 1; after one turn of its goroutine the UUID waits in channel 0, and channel 1 is
  empty. Then \<^verbatim>\<open>NewV1\<close> of the generator takes it from channel 0, and so would
  \<^verbatim>\<open>NewV1LockFree\<close>.
\<close>

theorem ChanneledGenerator_uses_package_channel:
  "run [CallNewChanneledGenerator 3 (Inr [0xaa, 0xbb]) (Inr [[1, 2, 3, 4, 5, 6]]) (Inl ''not read''),
        ChanneledBody 0 137000000000000005,
        ChanneledSend 0]
     \<lparr>globals = \<lparr>clockSequence = 7, lastTime = 137000000000000000, hardwareAddr = [1, 2, 3, 4, 5, 6]\<rparr>,
      chans = [\<lparr>cap = 10, buf = []\<rparr>],
      lockFreeWorker = Computing, gens = [], satoris = []\<rparr>
   = Ok ([],
     \<lparr>globals = \<lparr>clockSequence = 7, lastTime = 137000000000000000, hardwareAddr = [1, 2, 3, 4, 5, 6]\<rparr>,
      chans = [\<lparr>cap = 10, buf = [[0x2e, 0x3a, 0x80, 0x05, 0xb8, 0xc6, 0x11, 0xe6, 0x80, 0x07, 1, 2, 3, 4, 5, 6]]\<rparr>,
               \<lparr>cap = 3, buf = []\<rparr>],
      lockFreeWorker = Computing,
      gens = [(\<lparr>cg_ch = 1, cg_clockSequence = 0xaabb, cg_lastTime = 137000000000000005,
                cg_hardwareAddr = [0, 0, 0, 0, 0, 0]\<rparr>, Computing)],
      satoris = []\<rparr>) \<and>
   run [CallChanneledNewV1 0]
     \<lparr>globals = \<lparr>clockSequence = 7, lastTime = 137000000000000000, hardwareAddr = [1, 2, 3, 4, 5, 6]\<rparr>,
      chans = [\<lparr>cap = 10, buf = [[0x2e, 0x3a, 0x80, 0x05, 0xb8, 0xc6, 0x11, 0xe6, 0x80, 0x07, 1, 2, 3, 4, 5, 6]]\<rparr>,
               \<lparr>cap = 3, buf = []\<rparr>],
      lockFreeWorker = Computing,
      gens = [(\<lparr>cg_ch = 1, cg_clockSequence = 0xaabb, cg_lastTime = 137000000000000005,
                cg_hardwareAddr = [0, 0, 0, 0, 0, 0]\<rparr>, Computing)],
      satoris = []\<rparr>
   = Ok ([[0x2e, 0x3a, 0x80, 0x05, 0xb8, 0xc6, 0x11, 0xe6, 0x80, 0x07, 1, 2, 3, 4, 5, 6]],
     \<lparr>globals = \<lparr>clockSequence = 7, lastTime = 137000000000000000, hardwareAddr = [1, 2, 3, 4, 5, 6]\<rparr>,
      chans = [\<lparr>cap = 10, buf = []\<rparr>, \<lparr>cap = 3, buf = []\<rparr>],
      lockFreeWorker = Computing,
      gens = [(\<lparr>cg_ch = 1, cg_clockSequence = 0xaabb, cg_lastTime = 137000000000000005,
                cg_hardwareAddr = [0, 0, 0, 0, 0, 0]\<rparr>, Computing)],
      satoris = []\<rparr>) \<and>
   run [CallNewV1LockFree]
     \<lparr>globals = \<lparr>clockSequence = 7, lastTime = 137000000000000000, hardwareAddr = [1, 2, 3, 4, 5, 6]\<rparr>,
      chans = [\<lparr>cap = 10, buf = [[0x2e, 0x3a, 0x80, 0x05, 0xb8, 0xc6, 0x11, 0xe6, 0x80, 0x07, 1, 2, 3, 4, 5, 6]]\<rparr>,
               \<lparr>cap = 3, buf = []\<rparr>],
      lockFreeWorker = Computing,
      gens = [(\<lparr>cg_ch = 1, cg_clockSequence = 0xaabb, cg_lastTime = 137000000000000005,
                cg_hardwareAddr = [0, 0, 0, 0, 0, 0]\<rparr>, Computing)],
      satoris = []\<rparr>
   = Ok ([[0x2e, 0x3a, 0x80, 0x05, 0xb8, 0xc6, 0x11, 0xe6, 0x80, 0x07, 1, 2, 3, 4, 5, 6]],
     \<lparr>globals = \<lparr>clockSequence = 7, lastTime = 137000000000000000, hardwareAddr = [1, 2, 3, 4, 5, 6]\<rparr>,
      chans = [\<lparr>cap = 10, buf = []\<rparr>, \<lparr>cap = 3, buf = []\<rparr>],
      lockFreeWorker = Computing,
      gens = [(\<lparr>cg_ch = 1, cg_clockSequence = 0xaabb, cg_lastTime = 137000000000000005,
                cg_hardwareAddr = [0, 0, 0, 0, 0, 0]\<rparr>, Computing)],
      satoris = []\<rparr>)"
  by (simp add: NewChanneledGenerator_def initStorage_def initClockSequence_def safeRandom_def
      Uint16_def copy_def initHardwareAddr_def first_hardware_addr_def produceUUIDs_body_def ChanneledGenerator_getStorage_def
      encodeV1_general v1_head_def produceUUIDs_send_def send_def chan_send_def ch_def rep6
      ChanneledGenerator_NewV1_def NewV1LockFree_def recv_def chan_recv_def)

subsection \<open>Version and variant of every UUID handed to a caller\<close>

lemma encodeV1_ok:
  assumes "encodeV1 t s n = Some u"
  shows "versionNibble u = 1 \<and> variantBits u = 2"
proof -
  have u: "u = v1_head t s @ take 6 n @ replicate (6 - length n) 0"
    using assms by (simp add: encodeV1_general)
  have b6: "u ! 6 = (ucast (drop_bit 56 t) AND 0x0f) OR 0x10"
    and b8: "u ! 8 = (ucast (drop_bit 8 s) AND 0xbf) OR 0x80"
    by (simp_all add: u v1_head_def)
  show ?thesis
    unfolding versionNibble_def variantBits_def b6 b8
    using version_nibble variant_bits by blast
qed

lemma NewV1_ok: "NewV1 t st = Some (u, st') \<Longrightarrow> versionNibble u = 1 \<and> variantBits u = 2"
  by (auto simp add: NewV1_def getStorage_def Let_def dest: encodeV1_ok)

lemma SatoriGenerator_NewV1_ok:
  "SatoriGenerator_NewV1 t g st = Some (u, g') \<Longrightarrow> versionNibble u = 1 \<and> variantBits u = 2"
  by (auto simp add: SatoriGenerator_NewV1_def SatoriGenerator_getStorage_def Let_def dest: encodeV1_ok)

lemma produceUUIDs_body_ok:
  "produceUUIDs_body t g st = Some (u, g') \<Longrightarrow> versionNibble u = 1 \<and> variantBits u = 2"
  by (auto simp add: produceUUIDs_body_def ChanneledGenerator_getStorage_def Let_def dest: encodeV1_ok)

lemma produceLockFreeUUIDs_body_ok:
  "produceLockFreeUUIDs_body t st = Some (u, st') \<Longrightarrow> versionNibble u = 1 \<and> variantBits u = 2"
  by (auto simp add: produceLockFreeUUIDs_body_def getStorageLockFree_def Let_def dest: encodeV1_ok)

lemma send_frame:
  assumes "send a u w = Some w'"
  shows "in_flight w' \<subseteq> insert u (in_flight w)"
    and "lockFreeWorker w' = lockFreeWorker w" and "gens w' = gens w"
    and "globals w' = globals w" and "satoris w' = satoris w"
    and "length (chans w') = length (chans w)"
    and "cap (chans w' ! b) = cap (chans w ! b)"
proof -
  from assms obtain c where a: "a < length (chans w)"
    and c: "chan_send u (chans w ! a) = Some c"
    and w': "w' = w\<lparr>chans := (chans w)[a := c]\<rparr>"
    by (auto simp add: send_def split: if_splits)
  from c have c': "c = (chans w ! a)\<lparr>buf := buf (chans w ! a) @ [u]\<rparr>"
    by (auto simp add: chan_send_def split: if_splits)
  have "set (buf c) \<subseteq> insert u (\<Union>c \<in> set (chans w). set (buf c))"
    using a by (auto simp add: c')
  moreover have "set ((chans w)[a := c]) \<subseteq> insert c (set (chans w))"
    by (rule set_update_subset_insert)
  ultimately show "in_flight w' \<subseteq> insert u (in_flight w)"
    unfolding w' in_flight_def by auto
  show "lockFreeWorker w' = lockFreeWorker w" "gens w' = gens w"
    "globals w' = globals w" "satoris w' = satoris w"
    "length (chans w') = length (chans w)"
    by (simp_all add: w')
  show "cap (chans w' ! b) = cap (chans w ! b)"
    using a by (cases "b = a") (simp_all add: w' c')
qed

lemma recv_frame:
  assumes "recv a w = Some (u, w')"
  shows "u \<in> in_flight w" and "in_flight w' \<subseteq> in_flight w"
    and "lockFreeWorker w' = lockFreeWorker w" and "gens w' = gens w"
    and "globals w' = globals w" and "satoris w' = satoris w"
    and "length (chans w') = length (chans w)"
    and "cap (chans w' ! b) = cap (chans w ! b)"
proof -
  from assms obtain c where a: "a < length (chans w)"
    and c: "chan_recv (chans w ! a) = Some (u, c)"
    and w': "w' = w\<lparr>chans := (chans w)[a := c]\<rparr>"
    by (auto simp add: recv_def split: if_splits)
  from c obtain us where b: "buf (chans w ! a) = u # us"
    and c': "c = (chans w ! a)\<lparr>buf := us\<rparr>"
    by (auto simp add: chan_recv_def split: list.splits)
  have in_a: "set (buf (chans w ! a)) \<subseteq> (\<Union>c \<in> set (chans w). set (buf c))"
    using nth_mem [OF a] by auto
  then show "u \<in> in_flight w"
    unfolding in_flight_def using b by auto
  have "set (buf c) \<subseteq> (\<Union>c \<in> set (chans w). set (buf c))"
    using in_a b by (auto simp add: c')
  moreover have "set ((chans w)[a := c]) \<subseteq> insert c (set (chans w))"
    by (rule set_update_subset_insert)
  ultimately show "in_flight w' \<subseteq> in_flight w"
    unfolding w' in_flight_def by auto
  show "lockFreeWorker w' = lockFreeWorker w" "gens w' = gens w"
    "globals w' = globals w" "satoris w' = satoris w"
    "length (chans w') = length (chans w)"
    by (simp_all add: w')
  show "cap (chans w' ! b) = cap (chans w ! b)"
    using a by (cases "b = a") (simp_all add: w' c')
qed


lemma in_flight_simps:
  "in_flight (w\<lparr>globals := st\<rparr>) = in_flight w"
  "in_flight (w\<lparr>satoris := ss\<rparr>) = in_flight w"
  by (simp_all add: in_flight_def)

lemma in_flight_worker:
  "in_flight (w\<lparr>lockFreeWorker := k\<rparr>) \<subseteq> in_flight w \<union> set (pending k)"
  by (auto simp add: in_flight_def)

lemma in_flight_gens_update:
  "in_flight (w\<lparr>gens := (gens w)[i := (g, k)]\<rparr>) \<subseteq> in_flight w \<union> set (pending k)"
proof -
  have "set ((gens w)[i := (g, k)]) \<subseteq> insert (g, k) (set (gens w))"
    by (rule set_update_subset_insert)
  then show ?thesis
    unfolding in_flight_def by auto
qed

lemma pending_lockFree_in_flight: "lockFreeWorker w = Sending u \<Longrightarrow> u \<in> in_flight w"
  by (simp add: in_flight_def)

lemma pending_gen_in_flight:
  "i < length (gens w) \<Longrightarrow> gens w ! i = (g, Sending u) \<Longrightarrow> u \<in> in_flight w"
  unfolding in_flight_def using nth_mem [of i "gens w"] by force

lemma invariant_init: "init r1 ifs r2 = Some w \<Longrightarrow> invariant w"
  by (auto simp add: init_def invariant_def in_flight_def ch_def split: Option.bind_splits)

lemma NewChanneledGenerator_frame:
  assumes "NewChanneledGenerator c r1 ifs r2 w = Some (i, w')"
  shows "in_flight w' = in_flight w" and "chans w' = chans w @ [\<lparr>cap = nat c, buf = []\<rparr>]"
proof -
  from assms obtain seq st where
    w': "w' = w\<lparr>chans := chans w @ [\<lparr>cap = nat c, buf = []\<rparr>], globals := st,
                  gens := gens w @ [(\<lparr>cg_ch = length (chans w), cg_clockSequence = seq,
                      cg_lastTime = 0, cg_hardwareAddr = replicate 6 0\<rparr>, Computing)]\<rparr>"
    by (auto simp add: NewChanneledGenerator_def Let_def split: if_splits Option.bind_splits)
  show "in_flight w' = in_flight w"
    unfolding w' in_flight_def by simp
  show "chans w' = chans w @ [\<lparr>cap = nat c, buf = []\<rparr>]"
    unfolding w' by simp
qed

lemma step_invariant:
  assumes "invariant w" and "step a w = Ok (r, w')"
  shows "invariant w' \<and> (\<forall>u. r = Some u \<longrightarrow> versionNibble u = 1 \<and> variantBits u = 2)"
proof (cases a)
  case (CallNewV1 t)
  with assms show ?thesis
    by (auto simp add: invariant_def in_flight_simps dest: NewV1_ok split: option.splits)
next
  case CallNewV1LockFree
  with assms obtain u where r: "r = Some u" and rc: "recv ch w = Some (u, w')"
    by (auto simp add: NewV1LockFree_def split: option.splits)
  from recv_frame [OF rc] assms(1) r show ?thesis
    unfolding invariant_def by (auto simp add: ch_def)
next
  case (CallNewSatoriGenerator r1 ifs r2)
  with assms show ?thesis
    by (auto simp add: invariant_def in_flight_simps split: option.splits)
next
  case (CallSatoriNewV1 i t)
  with assms show ?thesis
    by (auto simp add: invariant_def in_flight_simps dest: SatoriGenerator_NewV1_ok
        split: option.splits if_splits)
next
  case (CallNewChanneledGenerator c r1 ifs r2)
  with assms obtain i where n: "NewChanneledGenerator c r1 ifs r2 w = Some (i, w')" and r: "r = None"
    by (auto split: option.splits)
  from NewChanneledGenerator_frame [OF n] assms(1) r show ?thesis
    unfolding invariant_def by (auto simp add: ch_def nth_append)
next
  case (CallChanneledNewV1 i)
  with assms obtain u where r: "r = Some u" and rc: "recv ch w = Some (u, w')"
    by (auto simp add: ChanneledGenerator_NewV1_def split: option.splits if_splits)
  from recv_frame [OF rc] assms(1) r show ?thesis
    unfolding invariant_def by (auto simp add: ch_def)
next
  case (LockFreeBody t)
  with assms obtain u st where b: "produceLockFreeUUIDs_body t (globals w) = Some (u, st)"
    and w': "w' = w\<lparr>globals := st, lockFreeWorker := Sending u\<rparr>" and r: "r = None"
    by (auto split: worker.splits option.splits)
  have "in_flight w' \<subseteq> insert u (in_flight w)"
    unfolding w' using in_flight_worker [where w = "w\<lparr>globals := st\<rparr>" and k = "Sending u"]
    by (simp add: in_flight_simps)
  with produceLockFreeUUIDs_body_ok [OF b] assms(1) r show ?thesis
    unfolding invariant_def by (auto simp add: w')
next
  case LockFreeSend
  with assms obtain u w1 where k: "lockFreeWorker w = Sending u"
    and s: "send ch u w = Some w1" and w': "w' = w1\<lparr>lockFreeWorker := Computing\<rparr>" and r: "r = None"
    by (auto simp add: produceLockFreeUUIDs_send_def split: worker.splits option.splits)
  have "in_flight w' \<subseteq> in_flight w1"
    unfolding w' using in_flight_worker [where w = w1 and k = Computing] by simp
  with send_frame [OF s] pending_lockFree_in_flight [OF k] assms(1) r show ?thesis
    unfolding invariant_def by (auto simp add: w' ch_def)
next
  case (ChanneledBody i t)
  with assms obtain g u g' where i: "i < length (gens w)" and gi: "gens w ! i = (g, Computing)"
    and b: "produceUUIDs_body t g (globals w) = Some (u, g')"
    and w': "w' = w\<lparr>gens := (gens w)[i := (g', Sending u)]\<rparr>" and r: "r = None"
    by (auto split: worker.splits option.splits if_splits prod.splits)
  have "in_flight w' \<subseteq> insert u (in_flight w)"
    unfolding w' using in_flight_gens_update [where w = w and i = i and g = g' and k = "Sending u"] by simp
  with produceUUIDs_body_ok [OF b] assms(1) r show ?thesis
    unfolding invariant_def by (auto simp add: w')
next
  case (ChanneledSend i)
  with assms obtain g u w1 where i: "i < length (gens w)" and gi: "gens w ! i = (g, Sending u)"
    and s: "send ch u w = Some w1"
    and w': "w' = w1\<lparr>gens := (gens w1)[i := (g, Computing)]\<rparr>" and r: "r = None"
    by (auto simp add: produceUUIDs_send_def split: worker.splits option.splits if_splits prod.splits)
  have "in_flight w' \<subseteq> in_flight w1"
    unfolding w' using in_flight_gens_update [where w = w1 and i = i and g = g and k = Computing] by simp
  with send_frame [OF s] pending_gen_in_flight [OF i gi] assms(1) r show ?thesis
    unfolding invariant_def by (auto simp add: w' ch_def)
qed

lemma reachable_invariant: "reachable w \<Longrightarrow> invariant w"
  by (induction rule: reachable.induct) (auto dest: invariant_init step_invariant)


lemma reachable_run: "reachable w \<Longrightarrow> run as w = Ok (us, w') \<Longrightarrow> reachable w'"
proof (induction as arbitrary: w us)
  case Nil
  then show ?case by simp
next
  case (Cons a as)
  from Cons.prems(2) obtain r w1 us1 where s: "step a w = Ok (r, w1)" and r: "run as w1 = Ok (us1, w')"
    by (auto split: outcome.splits)
  from Cons.prems(1) s have "reachable w1" by (rule reachable_step)
  then show ?case using r by (rule Cons.IH)
qed


lemma init_example:
  "init (Inr [0, 7]) (Inr [[1, 2, 3, 4, 5, 6]]) (Inl ''not read'') = Some \<lparr>globals = \<lparr>clockSequence = 7, lastTime = 0, hardwareAddr = [1, 2, 3, 4, 5, 6]\<rparr>, chans = [\<lparr>cap = 10, buf = []\<rparr>],
      lockFreeWorker = Computing, gens = [], satoris = []\<rparr>"
  by (simp add: init_def initStorage_def initClockSequence_def safeRandom_def Uint16_def copy_def
      initHardwareAddr_def first_hardware_addr_def zero_storage_def rep6)

lemma reachable_example_lockfree:
  "reachable \<lparr>globals = \<lparr>clockSequence = 7, lastTime = 137000000000000005, hardwareAddr = [1, 2, 3, 4, 5, 6]\<rparr>, chans = [\<lparr>cap = 10, buf = [[0x2e, 0x3a, 0x80, 0x05, 0xb8, 0xc6, 0x11, 0xe6, 0x80, 0x07, 1, 2, 3, 4, 5, 6]]\<rparr>],
      lockFreeWorker = Computing, gens = [], satoris = []\<rparr>"
proof -
  have "reachable \<lparr>globals = \<lparr>clockSequence = 7, lastTime = 0, hardwareAddr = [1, 2, 3, 4, 5, 6]\<rparr>, chans = [\<lparr>cap = 10, buf = []\<rparr>],
      lockFreeWorker = Computing, gens = [], satoris = []\<rparr>"
    using init_example by (rule reachable_init)
  moreover have "run [LockFreeBody 137000000000000005, LockFreeSend] \<lparr>globals = \<lparr>clockSequence = 7, lastTime = 0, hardwareAddr = [1, 2, 3, 4, 5, 6]\<rparr>, chans = [\<lparr>cap = 10, buf = []\<rparr>],
      lockFreeWorker = Computing, gens = [], satoris = []\<rparr>
     = Ok ([], \<lparr>globals = \<lparr>clockSequence = 7, lastTime = 137000000000000005, hardwareAddr = [1, 2, 3, 4, 5, 6]\<rparr>, chans = [\<lparr>cap = 10, buf = [[0x2e, 0x3a, 0x80, 0x05, 0xb8, 0xc6, 0x11, 0xe6, 0x80, 0x07, 1, 2, 3, 4, 5, 6]]\<rparr>],
      lockFreeWorker = Computing, gens = [], satoris = []\<rparr>)"
    by (simp add: produceLockFreeUUIDs_body_def getStorageLockFree_def encodeV1_general v1_head_def
        produceLockFreeUUIDs_send_def send_def chan_send_def ch_def)
  ultimately show ?thesis by (rule reachable_run)
qed

lemma reachable_example_channeled:
  "reachable \<lparr>globals = \<lparr>clockSequence = 7, lastTime = 0, hardwareAddr = [1, 2, 3, 4, 5, 6]\<rparr>,
      chans = [\<lparr>cap = 10, buf = []\<rparr>, \<lparr>cap = 3, buf = []\<rparr>],
      lockFreeWorker = Computing,
      gens = [(\<lparr>cg_ch = 1, cg_clockSequence = 0xaabb, cg_lastTime = 0, cg_hardwareAddr = [0, 0, 0, 0, 0, 0]\<rparr>, Computing)], satoris = []\<rparr>"
proof -
  have "reachable \<lparr>globals = \<lparr>clockSequence = 7, lastTime = 0, hardwareAddr = [1, 2, 3, 4, 5, 6]\<rparr>, chans = [\<lparr>cap = 10, buf = []\<rparr>],
      lockFreeWorker = Computing, gens = [], satoris = []\<rparr>"
    using init_example by (rule reachable_init)
  moreover have "run [CallNewChanneledGenerator 3 (Inr [0xaa, 0xbb]) (Inr [[1, 2, 3, 4, 5, 6]]) (Inl ''not read'')]
       \<lparr>globals = \<lparr>clockSequence = 7, lastTime = 0, hardwareAddr = [1, 2, 3, 4, 5, 6]\<rparr>, chans = [\<lparr>cap = 10, buf = []\<rparr>],
      lockFreeWorker = Computing, gens = [], satoris = []\<rparr>
     = Ok ([], \<lparr>globals = \<lparr>clockSequence = 7, lastTime = 0, hardwareAddr = [1, 2, 3, 4, 5, 6]\<rparr>,
      chans = [\<lparr>cap = 10, buf = []\<rparr>, \<lparr>cap = 3, buf = []\<rparr>],
      lockFreeWorker = Computing,
      gens = [(\<lparr>cg_ch = 1, cg_clockSequence = 0xaabb, cg_lastTime = 0, cg_hardwareAddr = [0, 0, 0, 0, 0, 0]\<rparr>, Computing)], satoris = []\<rparr>)"
    by (simp add: NewChanneledGenerator_def initStorage_def initClockSequence_def safeRandom_def
      Uint16_def copy_def initHardwareAddr_def first_hardware_addr_def rep6)
  ultimately show ?thesis by (rule reachable_run)
qed

text \<open>
  C5. Every UUID that \<^const>\<open>NewV1\<close>, \<^const>\<open>SatoriGenerator_NewV1\<close>,
  \<^const>\<open>ChanneledGenerator_NewV1\<close> or \<^const>\<open>NewV1LockFree\<close> returns has 0001 in the top four
  bits of byte 6 and 10 in the top two bits of byte 8. The first two build the UUID
  themselves, in any state; the other two take it from the channel, in any state the
  program reaches. The last line says the same of every step that hands a UUID to a
  caller.
\<close>

theorem generated_version_variant:
  "(NewV1 t st = Some (u, st') \<longrightarrow> versionNibble u = 1 \<and> variantBits u = 2) \<and>
   (SatoriGenerator_NewV1 t g st = Some (u, g') \<longrightarrow> versionNibble u = 1 \<and> variantBits u = 2) \<and>
   (reachable w \<and> ChanneledGenerator_NewV1 cg w = Some (u, w') \<longrightarrow>
      versionNibble u = 1 \<and> variantBits u = 2) \<and>
   (reachable w \<and> NewV1LockFree w = Some (u, w') \<longrightarrow> versionNibble u = 1 \<and> variantBits u = 2) \<and>
   (reachable w \<and> step a w = Ok (Some u, w') \<longrightarrow> versionNibble u = 1 \<and> variantBits u = 2)"
proof -
  have ch: "versionNibble u = 1 \<and> variantBits u = 2" if "reachable w" "recv ch w = Some (u, w')"
  proof -
    from that(1) have "invariant w" by (rule reachable_invariant)
    with recv_frame(1) [OF that(2)] show ?thesis
      by (simp add: invariant_def)
  qed
  have st: "versionNibble u = 1 \<and> variantBits u = 2" if "reachable w" "step a w = Ok (Some u, w')"
    using step_invariant [OF reachable_invariant [OF that(1)] that(2)] by simp
  from ch st show ?thesis
    by (auto simp add: ChanneledGenerator_NewV1_def NewV1LockFree_def
        dest: NewV1_ok SatoriGenerator_NewV1_ok)
qed


theorem generated_version_variant_witness:
  "NewV1 137000000000000005 \<lparr>clockSequence = 7, lastTime = 0, hardwareAddr = [1, 2, 3, 4, 5, 6]\<rparr> = Some ([0x2e, 0x3a, 0x80, 0x05, 0xb8, 0xc6, 0x11, 0xe6, 0x80, 0x07, 1, 2, 3, 4, 5, 6], \<lparr>clockSequence = 7, lastTime = 137000000000000005, hardwareAddr = [1, 2, 3, 4, 5, 6]\<rparr>) \<and>
   SatoriGenerator_NewV1 137000000000000005 \<lparr>sg_clockSequence = 9, sg_lastTime = 0, sg_hardwareAddr = [0, 0, 0, 0, 0, 0]\<rparr> \<lparr>clockSequence = 7, lastTime = 0, hardwareAddr = [1, 2, 3, 4, 5, 6]\<rparr> = Some ([0x2e, 0x3a, 0x80, 0x05, 0xb8, 0xc6, 0x11, 0xe6, 0x80, 0x07, 1, 2, 3, 4, 5, 6], \<lparr>sg_clockSequence = 9, sg_lastTime = 137000000000000005, sg_hardwareAddr = [0, 0, 0, 0, 0, 0]\<rparr>) \<and>
   reachable \<lparr>globals = \<lparr>clockSequence = 7, lastTime = 137000000000000005, hardwareAddr = [1, 2, 3, 4, 5, 6]\<rparr>, chans = [\<lparr>cap = 10, buf = [[0x2e, 0x3a, 0x80, 0x05, 0xb8, 0xc6, 0x11, 0xe6, 0x80, 0x07, 1, 2, 3, 4, 5, 6]]\<rparr>],
      lockFreeWorker = Computing, gens = [], satoris = []\<rparr> \<and>
   ChanneledGenerator_NewV1 \<lparr>cg_ch = 1, cg_clockSequence = 0xaabb, cg_lastTime = 0, cg_hardwareAddr = [0, 0, 0, 0, 0, 0]\<rparr> \<lparr>globals = \<lparr>clockSequence = 7, lastTime = 137000000000000005, hardwareAddr = [1, 2, 3, 4, 5, 6]\<rparr>, chans = [\<lparr>cap = 10, buf = [[0x2e, 0x3a, 0x80, 0x05, 0xb8, 0xc6, 0x11, 0xe6, 0x80, 0x07, 1, 2, 3, 4, 5, 6]]\<rparr>],
      lockFreeWorker = Computing, gens = [], satoris = []\<rparr> = Some ([0x2e, 0x3a, 0x80, 0x05, 0xb8, 0xc6, 0x11, 0xe6, 0x80, 0x07, 1, 2, 3, 4, 5, 6], \<lparr>globals = \<lparr>clockSequence = 7, lastTime = 137000000000000005, hardwareAddr = [1, 2, 3, 4, 5, 6]\<rparr>, chans = [\<lparr>cap = 10, buf = []\<rparr>],
      lockFreeWorker = Computing, gens = [], satoris = []\<rparr>) \<and>
   NewV1LockFree \<lparr>globals = \<lparr>clockSequence = 7, lastTime = 137000000000000005, hardwareAddr = [1, 2, 3, 4, 5, 6]\<rparr>, chans = [\<lparr>cap = 10, buf = [[0x2e, 0x3a, 0x80, 0x05, 0xb8, 0xc6, 0x11, 0xe6, 0x80, 0x07, 1, 2, 3, 4, 5, 6]]\<rparr>],
      lockFreeWorker = Computing, gens = [], satoris = []\<rparr> = Some ([0x2e, 0x3a, 0x80, 0x05, 0xb8, 0xc6, 0x11, 0xe6, 0x80, 0x07, 1, 2, 3, 4, 5, 6], \<lparr>globals = \<lparr>clockSequence = 7, lastTime = 137000000000000005, hardwareAddr = [1, 2, 3, 4, 5, 6]\<rparr>, chans = [\<lparr>cap = 10, buf = []\<rparr>],
      lockFreeWorker = Computing, gens = [], satoris = []\<rparr>) \<and>
   step CallNewV1LockFree \<lparr>globals = \<lparr>clockSequence = 7, lastTime = 137000000000000005, hardwareAddr = [1, 2, 3, 4, 5, 6]\<rparr>, chans = [\<lparr>cap = 10, buf = [[0x2e, 0x3a, 0x80, 0x05, 0xb8, 0xc6, 0x11, 0xe6, 0x80, 0x07, 1, 2, 3, 4, 5, 6]]\<rparr>],
      lockFreeWorker = Computing, gens = [], satoris = []\<rparr> = Ok (Some [0x2e, 0x3a, 0x80, 0x05, 0xb8, 0xc6, 0x11, 0xe6, 0x80, 0x07, 1, 2, 3, 4, 5, 6], \<lparr>globals = \<lparr>clockSequence = 7, lastTime = 137000000000000005, hardwareAddr = [1, 2, 3, 4, 5, 6]\<rparr>, chans = [\<lparr>cap = 10, buf = []\<rparr>],
      lockFreeWorker = Computing, gens = [], satoris = []\<rparr>) \<and>
   versionNibble [0x2e, 0x3a, 0x80, 0x05, 0xb8, 0xc6, 0x11, 0xe6, 0x80, 0x07, 1, 2, 3, 4, 5, 6] = 1 \<and>
   variantBits [0x2e, 0x3a, 0x80, 0x05, 0xb8, 0xc6, 0x11, 0xe6, 0x80, 0x07, 1, 2, 3, 4, 5, 6] = 2"
proof -
  have a: "NewV1 137000000000000005 \<lparr>clockSequence = 7, lastTime = 0, hardwareAddr = [1, 2, 3, 4, 5, 6]\<rparr> = Some ([0x2e, 0x3a, 0x80, 0x05, 0xb8, 0xc6, 0x11, 0xe6, 0x80, 0x07, 1, 2, 3, 4, 5, 6], \<lparr>clockSequence = 7, lastTime = 137000000000000005, hardwareAddr = [1, 2, 3, 4, 5, 6]\<rparr>)"
    by (simp add: NewV1_eq v1_head_def)
  have b: "SatoriGenerator_NewV1 137000000000000005 \<lparr>sg_clockSequence = 9, sg_lastTime = 0, sg_hardwareAddr = [0, 0, 0, 0, 0, 0]\<rparr> \<lparr>clockSequence = 7, lastTime = 0, hardwareAddr = [1, 2, 3, 4, 5, 6]\<rparr> = Some ([0x2e, 0x3a, 0x80, 0x05, 0xb8, 0xc6, 0x11, 0xe6, 0x80, 0x07, 1, 2, 3, 4, 5, 6], \<lparr>sg_clockSequence = 9, sg_lastTime = 137000000000000005, sg_hardwareAddr = [0, 0, 0, 0, 0, 0]\<rparr>)"
    by (simp add: SatoriGenerator_NewV1_def SatoriGenerator_getStorage_def encodeV1_general v1_head_def)
  note c = reachable_example_lockfree
  have d: "ChanneledGenerator_NewV1 \<lparr>cg_ch = 1, cg_clockSequence = 0xaabb, cg_lastTime = 0, cg_hardwareAddr = [0, 0, 0, 0, 0, 0]\<rparr> \<lparr>globals = \<lparr>clockSequence = 7, lastTime = 137000000000000005, hardwareAddr = [1, 2, 3, 4, 5, 6]\<rparr>, chans = [\<lparr>cap = 10, buf = [[0x2e, 0x3a, 0x80, 0x05, 0xb8, 0xc6, 0x11, 0xe6, 0x80, 0x07, 1, 2, 3, 4, 5, 6]]\<rparr>],
      lockFreeWorker = Computing, gens = [], satoris = []\<rparr> = Some ([0x2e, 0x3a, 0x80, 0x05, 0xb8, 0xc6, 0x11, 0xe6, 0x80, 0x07, 1, 2, 3, 4, 5, 6], \<lparr>globals = \<lparr>clockSequence = 7, lastTime = 137000000000000005, hardwareAddr = [1, 2, 3, 4, 5, 6]\<rparr>, chans = [\<lparr>cap = 10, buf = []\<rparr>],
      lockFreeWorker = Computing, gens = [], satoris = []\<rparr>)"
    by (simp add: ChanneledGenerator_NewV1_def recv_def chan_recv_def ch_def)
  have e: "NewV1LockFree \<lparr>globals = \<lparr>clockSequence = 7, lastTime = 137000000000000005, hardwareAddr = [1, 2, 3, 4, 5, 6]\<rparr>, chans = [\<lparr>cap = 10, buf = [[0x2e, 0x3a, 0x80, 0x05, 0xb8, 0xc6, 0x11, 0xe6, 0x80, 0x07, 1, 2, 3, 4, 5, 6]]\<rparr>],
      lockFreeWorker = Computing, gens = [], satoris = []\<rparr> = Some ([0x2e, 0x3a, 0x80, 0x05, 0xb8, 0xc6, 0x11, 0xe6, 0x80, 0x07, 1, 2, 3, 4, 5, 6], \<lparr>globals = \<lparr>clockSequence = 7, lastTime = 137000000000000005, hardwareAddr = [1, 2, 3, 4, 5, 6]\<rparr>, chans = [\<lparr>cap = 10, buf = []\<rparr>],
      lockFreeWorker = Computing, gens = [], satoris = []\<rparr>)"
    by (simp add: NewV1LockFree_def recv_def chan_recv_def ch_def)
  have f: "step CallNewV1LockFree \<lparr>globals = \<lparr>clockSequence = 7, lastTime = 137000000000000005, hardwareAddr = [1, 2, 3, 4, 5, 6]\<rparr>, chans = [\<lparr>cap = 10, buf = [[0x2e, 0x3a, 0x80, 0x05, 0xb8, 0xc6, 0x11, 0xe6, 0x80, 0x07, 1, 2, 3, 4, 5, 6]]\<rparr>],
      lockFreeWorker = Computing, gens = [], satoris = []\<rparr> = Ok (Some [0x2e, 0x3a, 0x80, 0x05, 0xb8, 0xc6, 0x11, 0xe6, 0x80, 0x07, 1, 2, 3, 4, 5, 6], \<lparr>globals = \<lparr>clockSequence = 7, lastTime = 137000000000000005, hardwareAddr = [1, 2, 3, 4, 5, 6]\<rparr>, chans = [\<lparr>cap = 10, buf = []\<rparr>],
      lockFreeWorker = Computing, gens = [], satoris = []\<rparr>)"
    by (simp add: e)
  from a b c d e f generated_version_variant
    [of 137000000000000005 "\<lparr>clockSequence = 7, lastTime = 0, hardwareAddr = [1, 2, 3, 4, 5, 6]\<rparr>" "[0x2e, 0x3a, 0x80, 0x05, 0xb8, 0xc6, 0x11, 0xe6, 0x80, 0x07, 1, 2, 3, 4, 5, 6]" "\<lparr>clockSequence = 7, lastTime = 137000000000000005, hardwareAddr = [1, 2, 3, 4, 5, 6]\<rparr>" "\<lparr>sg_clockSequence = 9, sg_lastTime = 0, sg_hardwareAddr = [0, 0, 0, 0, 0, 0]\<rparr>" "\<lparr>sg_clockSequence = 9, sg_lastTime = 137000000000000005, sg_hardwareAddr = [0, 0, 0, 0, 0, 0]\<rparr>" "\<lparr>globals = \<lparr>clockSequence = 7, lastTime = 137000000000000005, hardwareAddr = [1, 2, 3, 4, 5, 6]\<rparr>, chans = [\<lparr>cap = 10, buf = [[0x2e, 0x3a, 0x80, 0x05, 0xb8, 0xc6, 0x11, 0xe6, 0x80, 0x07, 1, 2, 3, 4, 5, 6]]\<rparr>],
      lockFreeWorker = Computing, gens = [], satoris = []\<rparr>" "\<lparr>cg_ch = 1, cg_clockSequence = 0xaabb, cg_lastTime = 0, cg_hardwareAddr = [0, 0, 0, 0, 0, 0]\<rparr>" "\<lparr>globals = \<lparr>clockSequence = 7, lastTime = 137000000000000005, hardwareAddr = [1, 2, 3, 4, 5, 6]\<rparr>, chans = [\<lparr>cap = 10, buf = []\<rparr>],
      lockFreeWorker = Computing, gens = [], satoris = []\<rparr>" CallNewV1LockFree]
  show ?thesis
    by blast
qed

subsection \<open>Panics at initialisation, and none afterwards\<close>

lemma copy_length: "length (copy dst 0 src) = length dst"
  by (simp add: copy_def Let_def min_def)

lemma initClockSequence_None: "initClockSequence r = None \<longleftrightarrow> isl r"
  by (cases r) (simp_all add: initClockSequence_def safeRandom_def Uint16_def copy_length)

lemma initHardwareAddr_None:
  "initHardwareAddr addr ifs r st = None \<longleftrightarrow> first_hardware_addr ifs = None \<and> isl r"
  by (cases r; cases "first_hardware_addr ifs") (simp_all add: initHardwareAddr_def safeRandom_def)

lemma initStorage_None:
  "initStorage r1 ifs r2 addr st = None \<longleftrightarrow> isl r1 \<or> (first_hardware_addr ifs = None \<and> isl r2)"
  unfolding initStorage_def
  using initClockSequence_None [of r1] initHardwareAddr_None [of addr ifs r2 st]
  by (cases "initClockSequence r1"; cases "initHardwareAddr addr ifs r2 st") auto

lemma NewV1_Some: "\<exists>u st'. NewV1 t st = Some (u, st')"
  by (simp add: NewV1_eq)

lemma SatoriGenerator_NewV1_Some: "\<exists>u g'. SatoriGenerator_NewV1 t g st = Some (u, g')"
  by (simp add: SatoriGenerator_NewV1_def SatoriGenerator_getStorage_def encodeV1_general Let_def)

lemma produceUUIDs_body_Some: "\<exists>u g'. produceUUIDs_body t g st = Some (u, g')"
  by (simp add: produceUUIDs_body_def ChanneledGenerator_getStorage_def encodeV1_general Let_def)

lemma produceLockFreeUUIDs_body_Some: "\<exists>u st'. produceLockFreeUUIDs_body t st = Some (u, st')"
  by (simp add: produceLockFreeUUIDs_body_def getStorageLockFree_def encodeV1_general Let_def)

lemma recv_nonempty:
  assumes "chans w \<noteq> []" "buf (chans w ! ch) = u # us"
  shows "recv ch w = Some (u, w\<lparr>chans := (chans w)[ch := (chans w ! ch)\<lparr>buf := us\<rparr>]\<rparr>)"
  using assms by (simp add: recv_def chan_recv_def ch_def)

lemma send_empty:
  assumes "chans w \<noteq> []" "cap (chans w ! ch) = 10" "buf (chans w ! ch) = []"
  shows "send ch u w = Some (w\<lparr>chans := (chans w)[ch := (chans w ! ch)\<lparr>buf := [u]\<rparr>]\<rparr>)"
  using assms by (simp add: send_def chan_send_def ch_def)

lemma lockfree_progress:
  assumes "chans w \<noteq> []" "cap (chans w ! ch) = 10"
  shows "\<exists>as u w'. set as \<subseteq> {LockFreeBody t, LockFreeSend} \<and>
           run (as @ [CallNewV1LockFree]) w = Ok ([u], w')"
proof (cases "buf (chans w ! ch)")
  case (Cons u us)
  have "run ([] @ [CallNewV1LockFree]) w
      = Ok ([u], w\<lparr>chans := (chans w)[ch := (chans w ! ch)\<lparr>buf := us\<rparr>]\<rparr>)"
    by (simp add: NewV1LockFree_def recv_nonempty [OF assms(1) Cons])
  moreover have "set ([] :: action list) \<subseteq> {LockFreeBody t, LockFreeSend}"
    by simp
  ultimately show ?thesis by blast
next
  case Nil
  have after_send: "\<exists>w'. run [LockFreeSend, CallNewV1LockFree] v = Ok ([u], w')"
    if "lockFreeWorker v = Sending u" "chans v = chans w" for v u
  proof -
    let ?v1 = "v\<lparr>chans := (chans v)[ch := (chans v ! ch)\<lparr>buf := [u]\<rparr>]\<rparr>"
    have s: "send ch u v = Some ?v1"
      using assms Nil that(2) by (simp add: send_empty)
    have "recv ch (?v1\<lparr>lockFreeWorker := Computing\<rparr>)
        = Some (u, ?v1\<lparr>lockFreeWorker := Computing,
             chans := (chans ?v1)[ch := (chans ?v1 ! ch)\<lparr>buf := []\<rparr>]\<rparr>)"
      using assms(1) that(2) by (simp add: recv_def chan_recv_def ch_def)
    then show ?thesis
      using that(1) s by (simp add: produceLockFreeUUIDs_send_def NewV1LockFree_def)
  qed
  show ?thesis
  proof (cases "lockFreeWorker w")
    case (Sending u)
    from after_send [OF Sending refl] obtain w' where
      "run ([LockFreeSend] @ [CallNewV1LockFree]) w = Ok ([u], w')" by auto
    moreover have "set [LockFreeSend] \<subseteq> {LockFreeBody t, LockFreeSend}"
      by simp
    ultimately show ?thesis by blast
  next
    case Computing
    obtain u st' where b: "produceLockFreeUUIDs_body t (globals w) = Some (u, st')"
      using produceLockFreeUUIDs_body_Some by blast
    let ?v = "w\<lparr>globals := st', lockFreeWorker := Sending u\<rparr>"
    have "step (LockFreeBody t) w = Ok (None, ?v)"
      using Computing b by simp
    moreover obtain w' where "run [LockFreeSend, CallNewV1LockFree] ?v = Ok ([u], w')"
      using after_send [of ?v u] by auto
    ultimately have "run ([LockFreeBody t, LockFreeSend] @ [CallNewV1LockFree]) w = Ok ([u], w')"
      by simp
    moreover have "set [LockFreeBody t, LockFreeSend] \<subseteq> {LockFreeBody t, LockFreeSend}"
      by simp
    ultimately show ?thesis by blast
  qed
qed

lemma channeled_progress:
  assumes "chans w \<noteq> []" "cap (chans w ! ch) = 10" "i < length (gens w)"
  shows "\<exists>as u w'. set as \<subseteq> {ChanneledBody i t, ChanneledSend i} \<and>
           run (as @ [CallChanneledNewV1 i]) w = Ok ([u], w')"
proof (cases "buf (chans w ! ch)")
  case (Cons u us)
  have "run ([] @ [CallChanneledNewV1 i]) w
      = Ok ([u], w\<lparr>chans := (chans w)[ch := (chans w ! ch)\<lparr>buf := us\<rparr>]\<rparr>)"
    using assms(3) by (simp add: ChanneledGenerator_NewV1_def recv_nonempty [OF assms(1) Cons])
  moreover have "set ([] :: action list) \<subseteq> {ChanneledBody i t, ChanneledSend i}"
    by simp
  ultimately show ?thesis by blast
next
  case Nil
  have after_send: "\<exists>w'. run [ChanneledSend i, CallChanneledNewV1 i] v = Ok ([u], w')"
    if "gens v ! i = (g, Sending u)" "chans v = chans w" "length (gens v) = length (gens w)" for v g u
  proof -
    let ?v1 = "v\<lparr>chans := (chans v)[ch := (chans v ! ch)\<lparr>buf := [u]\<rparr>]\<rparr>"
    let ?v2 = "?v1\<lparr>gens := (gens ?v1)[i := (g, Computing)]\<rparr>"
    have s: "send ch u v = Some ?v1"
      using assms Nil that(2) by (simp add: send_empty)
    have "recv ch ?v2
        = Some (u, ?v2\<lparr>chans := (chans ?v2)[ch := (chans ?v2 ! ch)\<lparr>buf := []\<rparr>]\<rparr>)"
      using assms(1) that(2) by (simp add: recv_def chan_recv_def ch_def)
    then show ?thesis
      using that(1,3) assms(3) s
      by (simp add: produceUUIDs_send_def ChanneledGenerator_NewV1_def)
  qed
  obtain g k where gk: "gens w ! i = (g, k)"
    by (cases "gens w ! i")
  show ?thesis
  proof (cases k)
    case (Sending u)
    from after_send [of w g u] gk Sending obtain w' where
      "run ([ChanneledSend i] @ [CallChanneledNewV1 i]) w = Ok ([u], w')" by auto
    moreover have "set [ChanneledSend i] \<subseteq> {ChanneledBody i t, ChanneledSend i}"
      by simp
    ultimately show ?thesis by blast
  next
    case Computing
    obtain u g' where b: "produceUUIDs_body t g (globals w) = Some (u, g')"
      using produceUUIDs_body_Some by blast
    let ?v = "w\<lparr>gens := (gens w)[i := (g', Sending u)]\<rparr>"
    have "step (ChanneledBody i t) w = Ok (None, ?v)"
      using Computing gk b assms(3) by simp
    moreover obtain w' where "run [ChanneledSend i, CallChanneledNewV1 i] ?v = Ok ([u], w')"
      using after_send [of ?v g' u] assms(3) by auto
    ultimately have "run ([ChanneledBody i t, ChanneledSend i] @ [CallChanneledNewV1 i]) w = Ok ([u], w')"
      by simp
    moreover have "set [ChanneledBody i t, ChanneledSend i] \<subseteq> {ChanneledBody i t, ChanneledSend i}"
      by simp
    ultimately show ?thesis by blast
  qed
qed

text \<open>
  C8. \<^const>\<open>initStorage\<close> panics exactly when a call it makes to the random source returns
  an error: the call for the clock sequence, or, when no interface has a hardware address,
  the call for the node id. So do \<^const>\<open>init\<close> and \<^const>\<open>NewSatoriGenerator\<close>;
  \<^const>\<open>NewChanneledGenerator\<close> panics also when \<^verbatim>\<open>make\<close> is given a negative size, before
  the initialisation. After that no generator fails: \<^const>\<open>NewV1\<close> and
  \<^const>\<open>SatoriGenerator_NewV1\<close> always return a UUID, and in every state the program reaches
  the two receiving functions cannot panic and return a UUID after at most one turn of
  the producing goroutine.
\<close>

theorem initialization_and_generation_failures:
  "((initStorage r1 ifs r2 addr st = None) = (isl r1 \<or> first_hardware_addr ifs = None \<and> isl r2)) \<and>
   ((init r1 ifs r2 = None) = (isl r1 \<or> first_hardware_addr ifs = None \<and> isl r2)) \<and>
   ((NewSatoriGenerator r1 ifs r2 st = None) = (isl r1 \<or> first_hardware_addr ifs = None \<and> isl r2)) \<and>
   ((NewChanneledGenerator c r1 ifs r2 w0 = None)
      = (c < 0 \<or> isl r1 \<or> first_hardware_addr ifs = None \<and> isl r2)) \<and>
   (\<exists>u st'. NewV1 t st = Some (u, st')) \<and>
   (\<exists>u g'. SatoriGenerator_NewV1 t g st = Some (u, g')) \<and>
   (reachable w \<longrightarrow>
      step CallNewV1LockFree w \<noteq> Panics \<and>
      (\<exists>as u w'. set as \<subseteq> {LockFreeBody t, LockFreeSend} \<and>
         run (as @ [CallNewV1LockFree]) w = Ok ([u], w'))) \<and>
   (reachable w \<and> i < length (gens w) \<longrightarrow>
      step (CallChanneledNewV1 i) w \<noteq> Panics \<and>
      (\<exists>as u w'. set as \<subseteq> {ChanneledBody i t, ChanneledSend i} \<and>
         run (as @ [CallChanneledNewV1 i]) w = Ok ([u], w')))"
proof -
  note s = initStorage_None
  have i: "(init r1 ifs r2 = None) = (isl r1 \<or> first_hardware_addr ifs = None \<and> isl r2)"
    using s [of r1 ifs r2 "hardwareAddr zero_storage" zero_storage]
    by (auto simp add: init_def split: Option.bind_splits)
  have g: "(NewSatoriGenerator r1 ifs r2 st = None) = (isl r1 \<or> first_hardware_addr ifs = None \<and> isl r2)"
    using s [of r1 ifs r2 "replicate 6 0" st]
    by (auto simp add: NewSatoriGenerator_def split: Option.bind_splits)
  have c: "(NewChanneledGenerator c r1 ifs r2 w0 = None)
      = (c < 0 \<or> isl r1 \<or> first_hardware_addr ifs = None \<and> isl r2)"
    using s [of r1 ifs r2 "replicate 6 0" "globals w0"]
    by (auto simp add: NewChanneledGenerator_def Let_def split: Option.bind_splits)
  have l: "step CallNewV1LockFree w \<noteq> Panics"
    by (simp split: option.splits)
  have k: "step (CallChanneledNewV1 i) w \<noteq> Panics"
    by (simp split: option.splits)
  have pl: "\<exists>as u w'. set as \<subseteq> {LockFreeBody t, LockFreeSend} \<and>
         run (as @ [CallNewV1LockFree]) w = Ok ([u], w')" if "reachable w"
    using reachable_invariant [OF that] lockfree_progress [of w t]
    by (simp add: invariant_def)
  have pc: "\<exists>as u w'. set as \<subseteq> {ChanneledBody i t, ChanneledSend i} \<and>
         run (as @ [CallChanneledNewV1 i]) w = Ok ([u], w')" if "reachable w" "i < length (gens w)"
    using reachable_invariant [OF that(1)] channeled_progress [of w i t] that(2)
    by (simp add: invariant_def)
  from s [of r1 ifs r2 addr st] i g c NewV1_Some [of t st] SatoriGenerator_NewV1_Some [of t g st]
    l k pl pc
  show ?thesis by blast
qed

theorem initialization_and_generation_failures_witness:
  "reachable \<lparr>globals = \<lparr>clockSequence = 7, lastTime = 0, hardwareAddr = [1, 2, 3, 4, 5, 6]\<rparr>,
      chans = [\<lparr>cap = 10, buf = []\<rparr>, \<lparr>cap = 3, buf = []\<rparr>],
      lockFreeWorker = Computing,
      gens = [(\<lparr>cg_ch = 1, cg_clockSequence = 0xaabb, cg_lastTime = 0, cg_hardwareAddr = [0, 0, 0, 0, 0, 0]\<rparr>, Computing)], satoris = []\<rparr> \<and>
   0 < length (gens \<lparr>globals = \<lparr>clockSequence = 7, lastTime = 0, hardwareAddr = [1, 2, 3, 4, 5, 6]\<rparr>,
      chans = [\<lparr>cap = 10, buf = []\<rparr>, \<lparr>cap = 3, buf = []\<rparr>],
      lockFreeWorker = Computing,
      gens = [(\<lparr>cg_ch = 1, cg_clockSequence = 0xaabb, cg_lastTime = 0, cg_hardwareAddr = [0, 0, 0, 0, 0, 0]\<rparr>, Computing)], satoris = []\<rparr>) \<and>
   (\<exists>as u w'. set as \<subseteq> {LockFreeBody 137000000000000005, LockFreeSend} \<and>
      run (as @ [CallNewV1LockFree]) \<lparr>globals = \<lparr>clockSequence = 7, lastTime = 0, hardwareAddr = [1, 2, 3, 4, 5, 6]\<rparr>,
      chans = [\<lparr>cap = 10, buf = []\<rparr>, \<lparr>cap = 3, buf = []\<rparr>],
      lockFreeWorker = Computing,
      gens = [(\<lparr>cg_ch = 1, cg_clockSequence = 0xaabb, cg_lastTime = 0, cg_hardwareAddr = [0, 0, 0, 0, 0, 0]\<rparr>, Computing)], satoris = []\<rparr> = Ok ([u], w')) \<and>
   (\<exists>as u w'. set as \<subseteq> {ChanneledBody 0 137000000000000005, ChanneledSend 0} \<and>
      run (as @ [CallChanneledNewV1 0]) \<lparr>globals = \<lparr>clockSequence = 7, lastTime = 0, hardwareAddr = [1, 2, 3, 4, 5, 6]\<rparr>,
      chans = [\<lparr>cap = 10, buf = []\<rparr>, \<lparr>cap = 3, buf = []\<rparr>],
      lockFreeWorker = Computing,
      gens = [(\<lparr>cg_ch = 1, cg_clockSequence = 0xaabb, cg_lastTime = 0, cg_hardwareAddr = [0, 0, 0, 0, 0, 0]\<rparr>, Computing)], satoris = []\<rparr> = Ok ([u], w')) \<and>
   init (Inl ''no entropy'') (Inr [[1, 2, 3, 4, 5, 6]]) (Inl ''not read'') = None \<and>
   init (Inr [0, 7]) (Inr [[1, 2, 3]]) (Inl ''no entropy'') = None \<and>
   init (Inr [0, 7]) (Inr [[1, 2, 3, 4, 5, 6]]) (Inl ''not read'') \<noteq> None"
proof -
  let ?w = "\<lparr>globals = \<lparr>clockSequence = 7, lastTime = 0, hardwareAddr = [1, 2, 3, 4, 5, 6]\<rparr>,
      chans = [\<lparr>cap = 10, buf = []\<rparr>, \<lparr>cap = 3, buf = []\<rparr>],
      lockFreeWorker = Computing,
      gens = [(\<lparr>cg_ch = 1, cg_clockSequence = 0xaabb, cg_lastTime = 0, cg_hardwareAddr = [0, 0, 0, 0, 0, 0]\<rparr>, Computing)], satoris = []\<rparr>"
  have r: "reachable ?w"
    by (rule reachable_example_channeled)
  have n: "0 < length (gens ?w)"
    by simp
  from r n initialization_and_generation_failures
    [where w = ?w and i = 0 and t = 137000000000000005]
  have p: "\<exists>as u w'. set as \<subseteq> {LockFreeBody 137000000000000005, LockFreeSend} \<and>
      run (as @ [CallNewV1LockFree]) ?w = Ok ([u], w')"
    and q: "\<exists>as u w'. set as \<subseteq> {ChanneledBody 0 137000000000000005, ChanneledSend 0} \<and>
      run (as @ [CallChanneledNewV1 0]) ?w = Ok ([u], w')"
    by blast+
  have i1: "init (Inl ''no entropy'') (Inr [[1, 2, 3, 4, 5, 6]]) (Inl ''not read'') = None"
    using initialization_and_generation_failures
      [where ?r1.0 = "Inl ''no entropy''" and ifs = "Inr [[1, 2, 3, 4, 5, 6]]" and ?r2.0 = "Inl ''not read''"]
    by simp
  have i2: "init (Inr [0, 7]) (Inr [[1, 2, 3]]) (Inl ''no entropy'') = None"
    using initialization_and_generation_failures
      [where ?r1.0 = "Inr [0, 7]" and ifs = "Inr [[1, 2, 3]]" and ?r2.0 = "Inl ''no entropy''"]
    by (simp add: first_hardware_addr_def)
  have i3: "init (Inr [0, 7]) (Inr [[1, 2, 3, 4, 5, 6]]) (Inl ''not read'') \<noteq> None"
    using initialization_and_generation_failures
      [where ?r1.0 = "Inr [0, 7]" and ifs = "Inr [[1, 2, 3, 4, 5, 6]]" and ?r2.0 = "Inl ''not read''"]
    by (simp add: first_hardware_addr_def)
  from r n p q i1 i2 i3 show ?thesis
    by blast
qed

subsection \<open>Calls serialised by the mutex\<close>




















end
